theory Spec2Isabelle
  imports Main
begin

section \<open>Data model of \<open>ffigen.ts\<close>\<close>

text \<open>
  The values that the Type Mapper hands out. The source types them as
  \<open>Deno.NativeResultType | null\<close>: one of the strings of \<open>tagMapping\<close>, or an
  object \<open>{ struct: [...] }\<close>. \<open>null\<close> is \<open>None\<close> of an option around this type.

  \<open>tagMapping\<close> is an object literal, read as \<open>tagMapping[t.tag]\<close> with a tag taken from the
  input. An object literal inherits from \<open>Object.prototype\<close>, so for a tag such as
  \<open>toString\<close> the read returns the inherited function, which is neither \<open>undefined\<close> nor
  \<open>null\<close>. \<open>Inherited k\<close> stands for the member \<open>k\<close> of \<open>Object.prototype\<close>.
\<close>

datatype NativeResultType =
    U8 | I8 | U16 | I16 | U32 | I32 | U64 | I64 | F64 | Pointer | Void
  | Struct "NativeResultType list"
  | Inherited string

text \<open>
  \<open>type Type = { tag: string; "bit-size"?: number; "bit-alignment"?: number;
  fields?: Type[]; type?: Type }\<close>. The two bit members are never read by the mapping
  and are left out; an absent optional member is \<open>None\<close>.
\<close>

datatype Type = Type (tag: string) (fields: "Type list option") (type: "Type option")

text \<open>\<open>type Parameter = { tag: string; name: string; type: Type }\<close>\<close>

datatype Parameter = Parameter (ptag: string) (pname: string) (ptype: Type)

text \<open>
  \<open>type Definition\<close>, by the value of its \<open>tag\<close>: \<open>"typedef"\<close>, \<open>"struct"\<close>,
  \<open>"function"\<close>, and \<open>Unknown tag\<close> for a record with any other tag (the \<open>default\<close>
  branch of the \<open>switch\<close>; the tag is then none of the three). Each variant carries the
  members that the loop reads from a record of that tag: a typedef its \<open>name\<close> and
  \<open>type\<close>; a struct its \<open>name\<close> and its \<open>fields\<close>; a function its \<open>name\<close>,
  \<open>location\<close>, \<open>variadic\<close>, \<open>inline\<close>, \<open>parameters\<close> and \<open>"return-type"\<close>.
  The declared type of a struct record has no \<open>fields\<close>, but the records come from
  \<open>JSON.parse\<close>, and after \<open>x.type = x\<close> the Type Mapper reads \<open>x.fields\<close> from
  the record itself. An absent boolean flag is \<open>False\<close> (the code tests
  \<open>x.inline || x.variadic\<close>). The members \<open>ns\<close> and \<open>"storage-class"\<close> are never
  read.
\<close>

datatype Definition =
    Typedef string Type
  | StructDef string "Type list option"
  | Function string string bool bool "Parameter list" Type
  | Unknown string

text \<open>An entry of \<open>symbolSource\<close>: \<open>Deno.ForeignFunction & { doc: string }\<close>.\<close>

record ForeignFunction =
  parameters :: "NativeResultType list"
  result :: NativeResultType
  doc :: string

text \<open>The three exceptions the code can raise; none is caught, so each ends the run.\<close>

datatype error =
    UnexpectedParameterTag string
  | UnexpectedVoidParameter string
  | TypeError

text \<open>
  The lines written by \<open>console.error\<close> inside the loop, by their content (the message
  text is a template around these parts): \<open>skipping <hint>. reason: field <field> has no
  mapping\<close>, \<open>skipping <name>. reason: inline\<close> or \<open>variadic\<close>, \<open>skipping <name>.
  reason: parameter <parameter> has no mapping\<close>, \<open>skipping <name>. reason: return type
  <type> has no mapping\<close>, and \<open>unknown tag <tag>\<close>.
\<close>

datatype event =
    FieldHasNoMapping string Type
  | SkipInlineOrVariadic string string
  | ParameterHasNoMapping string Parameter
  | ReturnTypeHasNoMapping string Type
  | UnknownTag string

text \<open>
  The module-level variables: \<open>resolvedTypeDefs\<close> (a \<open>Map\<close>), \<open>symbolSource\<close> (an
  object that the loop only assigns to; an assignment \<open>symbolSource[name] = ...\<close> makes
  or replaces the own property of that name), the four counters, \<open>unknowns\<close>, and what
  has been written to standard error. The counter \<open>total\<close> is named
  \<open>total_functions\<close> here, since \<open>total\<close> is a constant of HOL.
\<close>

record state =
  resolvedTypeDefs :: "string \<rightharpoonup> NativeResultType"
  symbolSource :: "string \<rightharpoonup> ForeignFunction"
  total_functions :: nat
  generated :: nat
  totalTypeDefs :: nat
  generatedTypeDefs :: nat
  unknowns :: "string \<rightharpoonup> nat"
  stderr :: "event list"

definition initial :: state where
  "initial = \<lparr> resolvedTypeDefs = Map.empty, symbolSource = Map.empty,
     total_functions = 0, generated = 0, totalTypeDefs = 0, generatedTypeDefs = 0,
     unknowns = Map.empty, stderr = [] \<rparr>"

section \<open>The Type Mapper\<close>

text \<open>The own properties of \<open>tagMapping\<close>, in the order of the literal.\<close>

definition tagMapping_own :: "(string \<times> NativeResultType) list" where
  "tagMapping_own =
    [(''__uint16_t'', U16), (''__uint32_t'', U32), (''__uint64_t'', U64), (''__uint8_t'', U8),
     (''__int16_t'', I16), (''__int32_t'', I32), (''__int64_t'', I64), (''__int8_t'', I8),
     ('':int'', I32), ('':unsigned-int'', U32), ('':long'', I64), ('':long-long'', I64),
     ('':long-double'', F64), ('':short'', I16), ('':unsigned'', U32),
     ('':unsigned-long'', U64), ('':unsigned-short'', U16), ('':unsigned-char'', U8),
     ('':char'', U8), ('':pointer'', Pointer), ('':function-pointer'', Pointer),
     ('':void'', Void)]"

text \<open>
  The members of \<open>Object.prototype\<close> in the Deno runtime the program is written for
  (it deletes \<open>__proto__\<close> from \<open>Object.prototype\<close> at start-up).
\<close>

definition Object_prototype :: "string list" where
  "Object_prototype =
    [''constructor'', ''__defineGetter__'', ''__defineSetter__'', ''hasOwnProperty'',
     ''__lookupGetter__'', ''__lookupSetter__'', ''isPrototypeOf'',
     ''propertyIsEnumerable'', ''toString'', ''valueOf'', ''toLocaleString'']"

text \<open>\<open>tagMapping[k]\<close>: an own property, else an inherited one, else \<open>undefined\<close>.\<close>

definition tagMapping :: "string \<Rightarrow> NativeResultType option" where
  "tagMapping k =
    (case map_of tagMapping_own k of
       Some v \<Rightarrow> Some v
     | None \<Rightarrow> if k \<in> set Object_prototype then Some (Inherited k) else None)"

text \<open>\<open>hint || "struct"\<close>: an absent or empty hint gives \<open>"struct"\<close>.\<close>

definition hintOrStruct :: "string option \<Rightarrow> string" where
  "hintOrStruct hint = (case hint of None \<Rightarrow> ''struct'' | Some h \<Rightarrow> if h = [] then ''struct'' else h)"

text \<open>\<open>fields.indexOf(null)\<close>, used only when \<open>fields.includes(null)\<close>.\<close>

definition indexOfNull :: "'a option list \<Rightarrow> nat" where
  "indexOfNull rs = length (takeWhile (\<lambda>r. r \<noteq> None) rs)"

text \<open>
  \<open>denoFFIType(t, hint)\<close> reads \<open>resolvedTypeDefs\<close>, may write to standard error and
  may raise: it returns the lines written and then either the exception (\<open>Inl\<close>) or the
  value returned (\<open>Inr\<close>, with \<open>None\<close> for \<open>null\<close>). \<open>mapFields\<close> is
  \<open>t.fields.map((f) => denoFFIType(f.type))\<close>; for a field without \<open>type\<close> the call
  is \<open>denoFFIType(undefined)\<close>, whose first step \<open>t.tag\<close> raises a \<open>TypeError\<close>.
\<close>

fun denoFFIType ::
    "(string \<rightharpoonup> NativeResultType) \<Rightarrow> Type \<Rightarrow> string option
      \<Rightarrow> event list \<times> (error + NativeResultType option)"
  and mapFields ::
    "(string \<rightharpoonup> NativeResultType) \<Rightarrow> Type list
      \<Rightarrow> event list \<times> (error + NativeResultType option list)"
where
  "denoFFIType rtd (Type tg fs ty) hint =
    (if tg = '':struct'' \<or> tg = ''struct'' then
       (case fs of
          None \<Rightarrow> ([], Inr None)
        | Some fl \<Rightarrow>
            (case mapFields rtd fl of
               (out, Inl e) \<Rightarrow> (out, Inl e)
             | (out, Inr rs) \<Rightarrow>
                 if None \<in> set rs
                 then (out @ [FieldHasNoMapping (hintOrStruct hint) (fl ! indexOfNull rs)], Inr None)
                 else (out, Inr (Some (Struct (map the rs))))))
     else ([], Inr (case tagMapping tg of Some v \<Rightarrow> Some v | None \<Rightarrow> rtd tg)))"
| "mapFields rtd [] = ([], Inr [])"
| "mapFields rtd (Type tg fs None # rest) = ([], Inl TypeError)"
| "mapFields rtd (Type tg fs (Some ft) # rest) =
    (case denoFFIType rtd ft None of
       (out1, Inl e) \<Rightarrow> (out1, Inl e)
     | (out1, Inr r) \<Rightarrow>
         (case mapFields rtd rest of
            (out2, Inl e) \<Rightarrow> (out1 @ out2, Inl e)
          | (out2, Inr rs) \<Rightarrow> (out1 @ out2, Inr (r # rs))))"

text \<open>
  The callback \<open>(f) => denoFFIType(f.type)\<close> of the field map, for one field: the
  exception or the value it gives.
\<close>

definition mapField ::
    "(string \<rightharpoonup> NativeResultType) \<Rightarrow> Type \<Rightarrow> error + NativeResultType option" where
  "mapField rtd f =
    (case type f of None \<Rightarrow> Inl TypeError | Some ft \<Rightarrow> snd (denoFFIType rtd ft None))"

text \<open>\<open>denoFFIParameter(p)\<close>; \<open>ty == "void"\<close> holds for the string \<open>"void"\<close> only.\<close>

definition denoFFIParameter ::
    "(string \<rightharpoonup> NativeResultType) \<Rightarrow> Parameter
      \<Rightarrow> event list \<times> (error + NativeResultType option)" where
  "denoFFIParameter rtd p =
    (if ptag p \<noteq> ''parameter'' then ([], Inl (UnexpectedParameterTag (ptag p)))
     else
       (case denoFFIType rtd (ptype p) None of
          (out, Inl e) \<Rightarrow> (out, Inl e)
        | (out, Inr ty) \<Rightarrow>
            if ty = Some Void then (out, Inl (UnexpectedVoidParameter (pname p)))
            else (out, Inr ty)))"

text \<open>\<open>x.parameters.map(denoFFIParameter)\<close>: in order, stopping at the first exception.\<close>

fun mapParameters ::
    "(string \<rightharpoonup> NativeResultType) \<Rightarrow> Parameter list
      \<Rightarrow> event list \<times> (error + NativeResultType option list)" where
  "mapParameters rtd [] = ([], Inr [])"
| "mapParameters rtd (p # ps) =
    (case denoFFIParameter rtd p of
       (out1, Inl e) \<Rightarrow> (out1, Inl e)
     | (out1, Inr r) \<Rightarrow>
         (case mapParameters rtd ps of
            (out2, Inl e) \<Rightarrow> (out1 @ out2, Inl e)
          | (out2, Inr rs) \<Rightarrow> (out1 @ out2, Inr (r # rs))))"

section \<open>The loop over the definitions\<close>

text \<open>\<open>console.error\<close>: the lines are appended to what was written before.\<close>

definition console_error :: "event list \<Rightarrow> state \<Rightarrow> state" where
  "console_error out s = s\<lparr>stderr := stderr s @ out\<rparr>"

text \<open>
  The inner loop \<open>for (const y of symbols)\<close> of the typedef case, with \<open>x.name\<close>,
  \<open>x.type.tag\<close> and the current value of \<open>result\<close>. It has no \<open>break\<close>: every
  typedef named \<open>x.type.tag\<close> is mapped in turn; \<open>result\<close> ends as the value for the
  last of them, and each value other than \<open>null\<close> is stored under \<open>x.name\<close> at once.
\<close>

fun anotherPass ::
    "string \<Rightarrow> string \<Rightarrow> Definition list \<Rightarrow> NativeResultType option \<Rightarrow> state
      \<Rightarrow> state \<times> (error + NativeResultType option)" where
  "anotherPass xname xtag [] res s = (s, Inr res)"
| "anotherPass xname xtag (Typedef yname ytype # ys) res s =
    (if yname = xtag then
       (case denoFFIType (resolvedTypeDefs s) ytype (Some xname) of
          (out, Inl e) \<Rightarrow> (console_error out s, Inl e)
        | (out, Inr None) \<Rightarrow> anotherPass xname xtag ys None (console_error out s)
        | (out, Inr (Some r)) \<Rightarrow>
            anotherPass xname xtag ys (Some r)
              ((console_error out s)\<lparr>resolvedTypeDefs := (resolvedTypeDefs s)(xname \<mapsto> r)\<rparr>))
     else anotherPass xname xtag ys res s)"
| "anotherPass xname xtag (y # ys) res s = anotherPass xname xtag ys res s"

text \<open>The test \<open>y.tag === "typedef" && y.name === x.type.tag\<close> of the inner loop.\<close>

fun isTypedefNamed :: "string \<Rightarrow> Definition \<Rightarrow> bool" where
  "isTypedefNamed xtag (Typedef yname ytype) = (yname = xtag)"
| "isTypedefNamed xtag y = False"

text \<open>
  \<open>case "typedef"\<close>, which \<open>case "struct"\<close> falls through to, for \<open>x.name\<close> and
  \<open>x.type\<close>. The result is the state reached and the exception, if one was raised.
\<close>

definition typedefCase ::
    "Definition list \<Rightarrow> string \<Rightarrow> Type \<Rightarrow> state \<Rightarrow> state \<times> error option" where
  "typedefCase symbols xname xtype s0 =
    (let s = s0\<lparr>totalTypeDefs := totalTypeDefs s0 + 1\<rparr> in
     case denoFFIType (resolvedTypeDefs s) xtype (Some xname) of
       (out, Inl e) \<Rightarrow> (console_error out s, Some e)
     | (out, Inr res) \<Rightarrow>
         (case (if res = None then anotherPass xname (tag xtype) symbols res (console_error out s)
                else (console_error out s, Inr res)) of
            (s2, Inl e) \<Rightarrow> (s2, Some e)
          | (s2, Inr None) \<Rightarrow> (s2, None)
          | (s2, Inr (Some r)) \<Rightarrow>
              (s2\<lparr>resolvedTypeDefs := (resolvedTypeDefs s2)(xname \<mapsto> r),
                   generatedTypeDefs := generatedTypeDefs s2 + 1\<rparr>, None)))"

text \<open>
  After \<open>x.type = x\<close> a struct definition is its own \<open>type\<close>: a Type with the tag
  \<open>"struct"\<close> and the definition's \<open>fields\<close>. Its member \<open>type\<close> (the definition
  again) is never read, since \<open>denoFFIType\<close> reads \<open>type\<close> from fields only.
\<close>

definition structAsType :: "Type list option \<Rightarrow> Type" where
  "structAsType flds = Type ''struct'' flds None"

text \<open>\<open>case "function"\<close>.\<close>

definition functionCase ::
    "string \<Rightarrow> string \<Rightarrow> bool \<Rightarrow> bool \<Rightarrow> Parameter list \<Rightarrow> Type \<Rightarrow> state
      \<Rightarrow> state \<times> error option" where
  "functionCase xname xloc xvariadic xinline xparameters xreturn s0 =
    (let s = s0\<lparr>total_functions := total_functions s0 + 1\<rparr> in
     if xinline \<or> xvariadic then
       (console_error [SkipInlineOrVariadic xname (if xinline then ''inline'' else ''variadic'')] s, None)
     else
       (case mapParameters (resolvedTypeDefs s) xparameters of
          (out, Inl e) \<Rightarrow> (console_error out s, Some e)
        | (out, Inr ps) \<Rightarrow>
            if None \<in> set ps then
              (console_error (out @ [ParameterHasNoMapping xname (xparameters ! indexOfNull ps)]) s, None)
            else
              (case denoFFIType (resolvedTypeDefs s) xreturn None of
                 (out2, Inl e) \<Rightarrow> (console_error (out @ out2) s, Some e)
               | (out2, Inr None) \<Rightarrow>
                   (console_error (out @ out2 @ [ReturnTypeHasNoMapping xname xreturn]) s, None)
               | (out2, Inr (Some r)) \<Rightarrow>
                   ((console_error (out @ out2) s)
                      \<lparr>symbolSource := (symbolSource s)(xname \<mapsto>
                          \<lparr>parameters = map the ps, result = r,
                           doc = xname @ '' @ '' @ xloc\<rparr>),
                       generated := generated s + 1\<rparr>, None))))"

text \<open>The body of \<open>for (const x of symbols)\<close>: the \<open>switch\<close> on \<open>x.tag\<close>.\<close>

fun step :: "Definition list \<Rightarrow> Definition \<Rightarrow> state \<Rightarrow> state \<times> error option" where
  "step symbols (StructDef xname flds) s = typedefCase symbols xname (structAsType flds) s"
| "step symbols (Typedef xname xtype) s = typedefCase symbols xname xtype s"
| "step symbols (Function xname xloc xvariadic xinline xparameters xreturn) s =
    functionCase xname xloc xvariadic xinline xparameters xreturn s"
| "step symbols (Unknown t) s =
    (console_error [UnknownTag t]
       (s\<lparr>unknowns := (unknowns s)(t \<mapsto> (case unknowns s t of None \<Rightarrow> 0 | Some c \<Rightarrow> c) + 1)\<rparr>),
     None)"

text \<open>
  The loop over a rest \<open>xs\<close> of \<open>symbols\<close>; an exception ends it in the state reached.
  The inner loop always reads the whole list.
\<close>

fun loop :: "Definition list \<Rightarrow> Definition list \<Rightarrow> state \<Rightarrow> state \<times> error option" where
  "loop symbols [] s = (s, None)"
| "loop symbols (x # xs) s =
    (case step symbols x s of
       (s', Some e) \<Rightarrow> (s', Some e)
     | (s', None) \<Rightarrow> loop symbols xs s')"

definition main :: "Definition list \<Rightarrow> state \<times> error option" where
  "main symbols = loop symbols symbols initial"

text \<open>
  A function definition of the given name that passes the test \<open>x.inline || x.variadic\<close>
  (neither flag set): the only kind of definition after which \<open>symbolSource[name]\<close> can
  be assigned.
\<close>

fun isPlainFunctionNamed :: "string \<Rightarrow> Definition \<Rightarrow> bool" where
  "isPlainFunctionNamed n (Function xname xloc xvariadic xinline xparameters xreturn) =
    (xname = n \<and> \<not> xinline \<and> \<not> xvariadic)"
| "isPlainFunctionNamed n x = False"

text \<open>The number printed as \<open>skipped\<close> for functions: \<open>total - generated\<close>.\<close>

definition skipped :: "state \<Rightarrow> int" where
  "skipped s = int (total_functions s) - int (generated s)"

text \<open>
  What the typedef case leaves alone, as a relation between the state before and the state
  after: everything but standard error and \<open>resolvedTypeDefs\<close>, where no name is
  removed and only the entry of \<open>x.name\<close> can change.
\<close>

definition sameButTable :: "string \<Rightarrow> state \<Rightarrow> state \<Rightarrow> bool" where
  "sameButTable xname s s' \<longleftrightarrow>
     symbolSource s' = symbolSource s \<and> total_functions s' = total_functions s
     \<and> generated s' = generated s \<and> totalTypeDefs s' = totalTypeDefs s
     \<and> generatedTypeDefs s' = generatedTypeDefs s \<and> unknowns s' = unknowns s
     \<and> dom (resolvedTypeDefs s) \<subseteq> dom (resolvedTypeDefs s')
     \<and> resolvedTypeDefs s' |` (- {xname}) = resolvedTypeDefs s |` (- {xname})"

text \<open>
  Where the Type Mapper raises. \<open>lacksFieldType t\<close> says that mapping \<open>t\<close> reaches a
  struct field without \<open>type\<close>: \<open>t\<close> has a struct tag and a field list, and one of the
  fields has no \<open>type\<close> or has a type for which the same holds. \<open>typedefTypes n symbols\<close>
  are the types of the typedefs named \<open>n\<close>, which the inner loop maps, and
  \<open>mappedTypes symbols x\<close> are the types that the step for \<open>x\<close> can pass to the Type
  Mapper: for a typedef its type and those of the typedefs named by its tag, for a struct
  the same with the struct as its own type, for a function with neither flag set the types
  of its parameters and its return type, and none otherwise.
\<close>

fun lacksFieldType :: "Type \<Rightarrow> bool"
  and anyLacksFieldType :: "Type list \<Rightarrow> bool"
where
  "lacksFieldType (Type tg fs ty) =
    ((tg = '':struct'' \<or> tg = ''struct'') \<and>
     (case fs of None \<Rightarrow> False | Some fl \<Rightarrow> anyLacksFieldType fl))"
| "anyLacksFieldType [] = False"
| "anyLacksFieldType (Type tg fs None # rest) = True"
| "anyLacksFieldType (Type tg fs (Some ft) # rest) = (lacksFieldType ft \<or> anyLacksFieldType rest)"

fun typedefTypes :: "string \<Rightarrow> Definition list \<Rightarrow> Type list" where
  "typedefTypes n [] = []"
| "typedefTypes n (Typedef yname ytype # ys) =
    (if yname = n then ytype # typedefTypes n ys else typedefTypes n ys)"
| "typedefTypes n (y # ys) = typedefTypes n ys"

fun mappedTypes :: "Definition list \<Rightarrow> Definition \<Rightarrow> Type list" where
  "mappedTypes symbols (Typedef xname xtype) = xtype # typedefTypes (tag xtype) symbols"
| "mappedTypes symbols (StructDef xname flds) =
    structAsType flds # typedefTypes (tag (structAsType flds)) symbols"
| "mappedTypes symbols (Function xname xloc xvariadic xinline xparameters xreturn) =
    (if xinline \<or> xvariadic then [] else map ptype xparameters @ [xreturn])"
| "mappedTypes symbols (Unknown t) = []"

section \<open>Facts about the Type Mapper\<close>

lemma mapField_simps:
  "mapField rtd (Type tg fs None) = Inl TypeError"
  "mapField rtd (Type tg fs (Some ft)) = snd (denoFFIType rtd ft None)"
  by (simp_all add: mapField_def)

lemma mapFields_result:
  "snd (mapFields rtd fl) = Inr rs \<longleftrightarrow> map (mapField rtd) fl = map Inr rs"
proof (induction fl arbitrary: rs)
  case Nil
  show ?case by auto
next
  case (Cons f rest)
  obtain tg fs ty where f: "f = Type tg fs ty" by (cases f)
  show ?case
  proof (cases ty)
    case None
    with f show ?thesis by (cases rs) (auto simp: mapField_simps)
  next
    case (Some ft)
    obtain o1 r1 where d: "denoFFIType rtd ft None = (o1, r1)" by (cases "denoFFIType rtd ft None")
    obtain o2 r2 where m: "mapFields rtd rest = (o2, r2)" by (cases "mapFields rtd rest")
    from Cons.IH m have IH: "\<And>rs. r2 = Inr rs \<longleftrightarrow> map (mapField rtd) rest = map Inr rs" by simp
    show ?thesis
    proof (cases r1)
      case (Inl e)
      with f Some d show ?thesis by (cases rs) (auto simp: mapField_simps)
    next
      case (Inr r)
      show ?thesis
      proof (cases r2)
        case (Inl e)
        with IH have "\<And>rs. map (mapField rtd) rest \<noteq> map Inr rs" by auto
        with f Some d m Inr Inl show ?thesis by (cases rs) (auto simp: mapField_simps)
      next
        case (Inr rs')
        with IH[of rs'] have "map (mapField rtd) rest = map Inr rs'" by simp
        with f Some d m \<open>r1 = Inr r\<close> Inr show ?thesis
          by (cases rs) (auto simp: mapField_simps)
      qed
    qed
  qed
qed

lemma mapFields_length:
  "snd (mapFields rtd fl) = Inr rs \<Longrightarrow> length rs = length fl"
  by (simp only: mapFields_result) (metis length_map)

lemma denoFFIType_struct:
  assumes "tg = '':struct'' \<or> tg = ''struct''"
  shows "snd (denoFFIType rtd (Type tg (Some fl) ty) hint) =
    (case snd (mapFields rtd fl) of
       Inl e \<Rightarrow> Inl e
     | Inr rs \<Rightarrow> if None \<in> set rs then Inr None else Inr (Some (Struct (map the rs))))"
  using assms by (auto split: prod.splits sum.splits)

lemma denoFFIType_struct_absent:
  "tg = '':struct'' \<or> tg = ''struct'' \<Longrightarrow> denoFFIType rtd (Type tg None ty) hint = ([], Inr None)"
  by auto

lemma map_the_Some: "map the (map Some ns) = ns"
  by (induction ns) auto

lemma struct_all_mapped:
  assumes "tg = '':struct'' \<or> tg = ''struct''"
    and "map (mapField rtd) fl = map (\<lambda>n. Inr (Some n)) ns"
  shows "snd (denoFFIType rtd (Type tg (Some fl) ty) hint) = Inr (Some (Struct ns))"
proof -
  from assms(2) have "map (mapField rtd) fl = map Inr (map Some ns)" by simp
  then have "snd (mapFields rtd fl) = Inr (map Some ns)" by (simp only: mapFields_result)
  then show ?thesis
    by (simp only: denoFFIType_struct[OF assms(1)]) (auto simp: map_the_Some)
qed

lemma struct_some_unmapped:
  assumes "tg = '':struct'' \<or> tg = ''struct''"
    and "map (mapField rtd) fl = map Inr rs" and "None \<in> set rs"
  shows "snd (denoFFIType rtd (Type tg (Some fl) ty) hint) = Inr None"
proof -
  from assms(2) have "snd (mapFields rtd fl) = Inr rs" by (simp only: mapFields_result)
  with assms(3) show ?thesis by (simp only: denoFFIType_struct[OF assms(1)]) auto
qed

lemma struct_result_complete:
  assumes "tg = '':struct'' \<or> tg = ''struct''"
    and "snd (denoFFIType rtd (Type tg fs ty) hint) = Inr (Some v)"
  shows "\<exists>fl ns. fs = Some fl \<and> v = Struct ns \<and> map (mapField rtd) fl = map (\<lambda>n. Inr (Some n)) ns"
proof (cases fs)
  case None
  with assms show ?thesis by auto
next
  case (Some fl)
  show ?thesis
  proof (cases "snd (mapFields rtd fl)")
    case (Inl e)
    with assms(2) Some show ?thesis
      by (simp add: denoFFIType_struct[OF assms(1)] del: denoFFIType.simps)
  next
    case (Inr rs)
    have eq: "snd (denoFFIType rtd (Type tg (Some fl) ty) hint) =
        (if None \<in> set rs then Inr None else Inr (Some (Struct (map the rs))))"
      by (simp add: denoFFIType_struct[OF assms(1)] Inr del: denoFFIType.simps)
    have nn: "None \<notin> set rs"
    proof
      assume "None \<in> set rs"
      with eq assms(2) Some show False by simp
    qed
    with eq assms(2) Some have v: "v = Struct (map the rs)" by simp
    from nn have "map Some (map the rs) = rs" by (induction rs) auto
    then have "map Inr rs = map (\<lambda>n. Inr (Some n)) (map the rs)"
      by (metis (no_types, lifting) map_map comp_def map_eq_conv)
    moreover from Inr have "map (mapField rtd) fl = map Inr rs" by (simp only: mapFields_result)
    ultimately show ?thesis using Some v by auto
  qed
qed

text \<open>The hint only names the struct in the message: the value does not depend on it.\<close>

lemma denoFFIType_hint:
  "snd (denoFFIType rtd t h) = snd (denoFFIType rtd t h')"
  by (cases t) (auto split: option.splits prod.splits sum.splits)

text \<open>An exception out of the Type Mapper is always the \<open>TypeError\<close> of a field without type.\<close>

lemma denoFFIType_raises:
  "snd (denoFFIType rtd t hint) = Inl e \<Longrightarrow> e = TypeError"
  "snd (mapFields rtd fl) = Inl e \<Longrightarrow> e = TypeError"
  by (induction rtd t hint and rtd fl rule: denoFFIType_mapFields.induct)
    (auto split: option.splits prod.splits sum.splits if_splits)

text \<open>
  The fixed table is read first; a tag that is neither in it nor inherited is looked up in
  \<open>resolvedTypeDefs\<close>, and is unmapped if it is not there.
\<close>

lemma tagMapping_own_not_struct:
  "map_of tagMapping_own tg = Some v \<Longrightarrow> tg \<noteq> '':struct'' \<and> tg \<noteq> ''struct''"
  by (auto simp: tagMapping_own_def split: if_splits)

lemma fixed_table_first:
  assumes "map_of tagMapping_own tg = Some v"
  shows "denoFFIType rtd (Type tg fs ty) hint = ([], Inr (Some v))"
  using assms tagMapping_own_not_struct[OF assms] by (simp add: tagMapping_def)

lemma absent_tag_unmapped:
  assumes "tg \<noteq> '':struct''" "tg \<noteq> ''struct''"
    and "map_of tagMapping_own tg = None" and "tg \<notin> set Object_prototype" and "rtd tg = None"
  shows "denoFFIType rtd (Type tg fs ty) hint = ([], Inr None)"
  using assms by (simp add: tagMapping_def)

lemma resolved_tag_mapped:
  assumes "tg \<noteq> '':struct''" "tg \<noteq> ''struct''"
    and "map_of tagMapping_own tg = None" and "tg \<notin> set Object_prototype"
  shows "denoFFIType rtd (Type tg fs ty) hint = ([], Inr (rtd tg))"
  using assms by (simp add: tagMapping_def)

section \<open>Facts about the function case\<close>

lemma denoFFIParameter_result:
  "snd (denoFFIParameter rtd p) =
    (if ptag p \<noteq> ''parameter'' then Inl (UnexpectedParameterTag (ptag p))
     else (case snd (denoFFIType rtd (ptype p) None) of
             Inl e \<Rightarrow> Inl e
           | Inr ty \<Rightarrow> if ty = Some Void then Inl (UnexpectedVoidParameter (pname p)) else Inr ty))"
  by (simp add: denoFFIParameter_def split: prod.splits sum.splits)

lemma mapParameters_result:
  "snd (mapParameters rtd ps) = Inr rs \<longleftrightarrow> map (\<lambda>p. snd (denoFFIParameter rtd p)) ps = map Inr rs"
proof (induction ps arbitrary: rs)
  case Nil
  show ?case by auto
next
  case (Cons p rest)
  obtain o1 r1 where d: "denoFFIParameter rtd p = (o1, r1)" by (cases "denoFFIParameter rtd p")
  obtain o2 r2 where m: "mapParameters rtd rest = (o2, r2)" by (cases "mapParameters rtd rest")
  from Cons.IH m
  have IH: "\<And>rs. r2 = Inr rs \<longleftrightarrow> map (\<lambda>p. snd (denoFFIParameter rtd p)) rest = map Inr rs"
    by simp
  show ?case
  proof (cases r1)
    case (Inl e)
    with d show ?thesis by (cases rs) auto
  next
    case (Inr r)
    show ?thesis
    proof (cases r2)
      case (Inl e)
      with IH have "\<And>rs. map (\<lambda>p. snd (denoFFIParameter rtd p)) rest \<noteq> map Inr rs" by auto
      with d m Inr Inl show ?thesis by (cases rs) auto
    next
      case (Inr rs')
      with IH[of rs'] have "map (\<lambda>p. snd (denoFFIParameter rtd p)) rest = map Inr rs'" by simp
      with d m \<open>r1 = Inr r\<close> Inr show ?thesis by (cases rs) auto
    qed
  qed
qed

lemma mapParameters_length:
  "snd (mapParameters rtd ps) = Inr rs \<Longrightarrow> length rs = length ps"
  by (simp only: mapParameters_result) (metis length_map)

lemma mapParameters_raises:
  "snd (mapParameters rtd ps) = Inl e \<Longrightarrow> \<exists>p\<in>set ps. snd (denoFFIParameter rtd p) = Inl e"
  by (induction ps arbitrary: e) (auto split: prod.splits sum.splits)

lemma mapParameters_raises_if:
  "\<exists>p\<in>set ps. \<exists>e. snd (denoFFIParameter rtd p) = Inl e \<Longrightarrow> \<exists>e. snd (mapParameters rtd ps) = Inl e"
proof (induction ps)
  case Nil
  then show ?case by simp
next
  case (Cons a ps)
  obtain o1 r1 where d: "denoFFIParameter rtd a = (o1, r1)" by (cases "denoFFIParameter rtd a")
  obtain o2 r2 where m: "mapParameters rtd ps = (o2, r2)" by (cases "mapParameters rtd ps")
  show ?case
  proof (cases r1)
    case (Inl e)
    with d show ?thesis by simp
  next
    case (Inr r)
    with d Cons.prems have "\<exists>p\<in>set ps. \<exists>e. snd (denoFFIParameter rtd p) = Inl e" by auto
    from Cons.IH[OF this] m obtain e where "r2 = Inl e" by auto
    with d m Inr show ?thesis by simp
  qed
qed

lemma parameters_all_return:
  assumes "\<forall>p\<in>set ps. ptag p = ''parameter'' \<and>
      (\<exists>r. snd (denoFFIType rtd (ptype p) None) = Inr r \<and> r \<noteq> Some Void)"
  shows "snd (mapParameters rtd ps) =
      Inr (map (\<lambda>p. case snd (denoFFIType rtd (ptype p) None) of Inr r \<Rightarrow> r) ps)"
proof -
  have "map (\<lambda>p. snd (denoFFIParameter rtd p)) ps =
      map Inr (map (\<lambda>p. case snd (denoFFIType rtd (ptype p) None) of Inr r \<Rightarrow> r) ps)"
    using assms by (auto simp: denoFFIParameter_result)
  then show ?thesis by (simp only: mapParameters_result)
qed

lemma indexOfNull_nth:
  "None \<in> set rs \<Longrightarrow> indexOfNull rs < length rs \<and> rs ! indexOfNull rs = None"
  by (induction rs) (auto simp: indexOfNull_def)

lemma functionCase_flagged:
  "xinline \<or> xvariadic \<Longrightarrow>
   functionCase xname xloc xvariadic xinline ps ret s =
     (s\<lparr>total_functions := total_functions s + 1,
        stderr := stderr s @ [SkipInlineOrVariadic xname (if xinline then ''inline'' else ''variadic'')]\<rparr>,
      None)"
  by (simp add: functionCase_def console_error_def Let_def)

lemma functionCase_raises_parameter:
  assumes "\<not> xinline" "\<not> xvariadic"
    and "mapParameters (resolvedTypeDefs s) ps = (out, Inl e)"
  shows "functionCase xname xloc xvariadic xinline ps ret s =
     (s\<lparr>total_functions := total_functions s + 1, stderr := stderr s @ out\<rparr>, Some e)"
  using assms by (simp add: functionCase_def console_error_def Let_def)

lemma functionCase_unmapped_parameter:
  assumes "\<not> xinline" "\<not> xvariadic"
    and "mapParameters (resolvedTypeDefs s) ps = (out, Inr rs)" and "None \<in> set rs"
  shows "functionCase xname xloc xvariadic xinline ps ret s =
     (s\<lparr>total_functions := total_functions s + 1,
        stderr := stderr s @ out @ [ParameterHasNoMapping xname (ps ! indexOfNull rs)]\<rparr>, None)"
  using assms by (simp add: functionCase_def console_error_def Let_def)

lemma functionCase_raises_return:
  assumes "\<not> xinline" "\<not> xvariadic"
    and "mapParameters (resolvedTypeDefs s) ps = (out, Inr rs)" and "None \<notin> set rs"
    and "denoFFIType (resolvedTypeDefs s) ret None = (out2, Inl e)"
  shows "functionCase xname xloc xvariadic xinline ps ret s =
     (s\<lparr>total_functions := total_functions s + 1, stderr := stderr s @ out @ out2\<rparr>, Some e)"
  using assms by (simp add: functionCase_def console_error_def Let_def)

lemma functionCase_unmapped_return:
  assumes "\<not> xinline" "\<not> xvariadic"
    and "mapParameters (resolvedTypeDefs s) ps = (out, Inr rs)" and "None \<notin> set rs"
    and "denoFFIType (resolvedTypeDefs s) ret None = (out2, Inr None)"
  shows "functionCase xname xloc xvariadic xinline ps ret s =
     (s\<lparr>total_functions := total_functions s + 1,
        stderr := stderr s @ out @ out2 @ [ReturnTypeHasNoMapping xname ret]\<rparr>, None)"
  using assms by (simp add: functionCase_def console_error_def Let_def)

lemma functionCase_generated:
  assumes "\<not> xinline" "\<not> xvariadic"
    and "mapParameters (resolvedTypeDefs s) ps = (out, Inr rs)" and "None \<notin> set rs"
    and "denoFFIType (resolvedTypeDefs s) ret None = (out2, Inr (Some r))"
  shows "functionCase xname xloc xvariadic xinline ps ret s =
     (s\<lparr>total_functions := total_functions s + 1, stderr := stderr s @ out @ out2,
        symbolSource := (symbolSource s)(xname \<mapsto>
          \<lparr>parameters = map the rs, result = r, doc = xname @ '' @ '' @ xloc\<rparr>),
        generated := generated s + 1\<rparr>, None)"
  using assms by (simp add: functionCase_def console_error_def Let_def)

text \<open>The function case never touches \<open>resolvedTypeDefs\<close> or the typedef counters.\<close>

lemma functionCase_frame:
  "resolvedTypeDefs (fst (functionCase xname xloc xvariadic xinline ps ret s)) = resolvedTypeDefs s"
  "totalTypeDefs (fst (functionCase xname xloc xvariadic xinline ps ret s)) = totalTypeDefs s"
  "generatedTypeDefs (fst (functionCase xname xloc xvariadic xinline ps ret s)) = generatedTypeDefs s"
  "total_functions (fst (functionCase xname xloc xvariadic xinline ps ret s)) = total_functions s + 1"
  by (simp_all add: functionCase_def console_error_def Let_def split: prod.splits sum.splits option.splits)

lemma functionCase_other_name:
  "n \<noteq> xname \<Longrightarrow>
   symbolSource (fst (functionCase xname xloc xvariadic xinline ps ret s)) n = symbolSource s n"
  by (simp add: functionCase_def console_error_def Let_def split: prod.splits sum.splits option.splits)

lemma functionCase_generated_mono:
  "generated s \<le> generated (fst (functionCase xname xloc xvariadic xinline ps ret s))"
  by (simp add: functionCase_def console_error_def Let_def split: prod.splits sum.splits option.splits)

lemma functionCase_raises_if:
  assumes "\<not> xinline" "\<not> xvariadic"
    and "\<exists>p\<in>set ps. ptag p \<noteq> ''parameter'' \<or>
           snd (denoFFIType (resolvedTypeDefs s) (ptype p) None) = Inr (Some Void)"
  shows "\<exists>out e. functionCase xname xloc xvariadic xinline ps ret s =
     (s\<lparr>total_functions := total_functions s + 1, stderr := stderr s @ out\<rparr>, Some e)"
proof -
  from assms(3) obtain p where p: "p \<in> set ps"
    and bad: "ptag p \<noteq> ''parameter'' \<or>
           snd (denoFFIType (resolvedTypeDefs s) (ptype p) None) = Inr (Some Void)" by blast
  have "\<exists>e. snd (denoFFIParameter (resolvedTypeDefs s) p) = Inl e"
  proof (cases "ptag p = ''parameter''")
    case False
    then show ?thesis by (simp add: denoFFIParameter_result)
  next
    case True
    with bad show ?thesis by (simp add: denoFFIParameter_result)
  qed
  with p have "\<exists>p\<in>set ps. \<exists>e. snd (denoFFIParameter (resolvedTypeDefs s) p) = Inl e" by blast
  from mapParameters_raises_if[OF this]
  obtain out e where "mapParameters (resolvedTypeDefs s) ps = (out, Inl e)"
    by (cases "mapParameters (resolvedTypeDefs s) ps") auto
  from functionCase_raises_parameter[OF assms(1,2) this] show ?thesis by blast
qed

lemma functionCase_raises_only:
  assumes "functionCase xname xloc xvariadic xinline ps ret s = (s', Some e)"
  shows "\<not> xinline \<and> \<not> xvariadic \<and>
    (e = TypeError \<or>
     (\<exists>p\<in>set ps. (ptag p \<noteq> ''parameter'' \<and> e = UnexpectedParameterTag (ptag p)) \<or>
        (ptag p = ''parameter'' \<and> snd (denoFFIType (resolvedTypeDefs s) (ptype p) None) = Inr (Some Void)
         \<and> e = UnexpectedVoidParameter (pname p))))"
proof -
  from assms have flags: "\<not> xinline" "\<not> xvariadic"
    by (auto simp: functionCase_flagged)
  obtain out v where m: "mapParameters (resolvedTypeDefs s) ps = (out, v)"
    by (cases "mapParameters (resolvedTypeDefs s) ps")
  have "e = TypeError \<or>
     (\<exists>p\<in>set ps. (ptag p \<noteq> ''parameter'' \<and> e = UnexpectedParameterTag (ptag p)) \<or>
        (ptag p = ''parameter'' \<and> snd (denoFFIType (resolvedTypeDefs s) (ptype p) None) = Inr (Some Void)
         \<and> e = UnexpectedVoidParameter (pname p)))"
  proof (cases v)
    case (Inl e')
    with assms flags m functionCase_raises_parameter[OF flags, of s ps out e' xname xloc ret]
    have "e' = e" by simp
    with m Inl have "snd (mapParameters (resolvedTypeDefs s) ps) = Inl e" by simp
    from mapParameters_raises[OF this] obtain p where p: "p \<in> set ps"
      and pe: "snd (denoFFIParameter (resolvedTypeDefs s) p) = Inl e" by blast
    show ?thesis
    proof (cases "ptag p = ''parameter''")
      case False
      with pe have "e = UnexpectedParameterTag (ptag p)" by (simp add: denoFFIParameter_result)
      with p False show ?thesis by blast
    next
      case True
      show ?thesis
      proof (cases "snd (denoFFIType (resolvedTypeDefs s) (ptype p) None)")
        case (Inl e2)
        with pe True have "e2 = e" by (simp add: denoFFIParameter_result)
        with Inl denoFFIType_raises(1) show ?thesis by blast
      next
        case (Inr ty)
        with pe True have "ty = Some Void \<and> e = UnexpectedVoidParameter (pname p)"
          by (simp add: denoFFIParameter_result split: if_splits)
        with p True Inr show ?thesis by blast
      qed
    qed
  next
    case (Inr rs)
    show ?thesis
    proof (cases "None \<in> set rs")
      case True
      with assms flags m Inr functionCase_unmapped_parameter[OF flags, of s ps out rs xname xloc ret]
      show ?thesis by simp
    next
      case False
      obtain out2 v2 where d: "denoFFIType (resolvedTypeDefs s) ret None = (out2, v2)"
        by (cases "denoFFIType (resolvedTypeDefs s) ret None")
      show ?thesis
      proof (cases v2)
        case (Inl e2)
        with assms m Inr False d
          functionCase_raises_return[OF flags, of s ps out rs ret out2 e2 xname xloc]
        have "e2 = e" by simp
        with d Inl denoFFIType_raises(1)[of "resolvedTypeDefs s" ret None e] show ?thesis by simp
      next
        case (Inr w)
        show ?thesis
        proof (cases w)
          case None
          with assms m \<open>v = Inr rs\<close> False d Inr
            functionCase_unmapped_return[OF flags, of s ps out rs ret out2 xname xloc]
          show ?thesis by simp
        next
          case (Some r)
          with assms m \<open>v = Inr rs\<close> False d Inr
            functionCase_generated[OF flags, of s ps out rs ret out2 r xname xloc]
          show ?thesis by simp
        qed
      qed
    qed
  qed
  with flags show ?thesis by simp
qed

text \<open>A function whose parameters and return type all map is generated.\<close>

lemma function_generated:
  assumes "snd (mapParameters (resolvedTypeDefs s) ps) = Inr (map Some pts)"
    and "snd (denoFFIType (resolvedTypeDefs s) ret None) = Inr (Some r)"
  shows "\<exists>s'. step symbols (Function xname xloc False False ps ret) s = (s', None)
     \<and> symbolSource s' = (symbolSource s)(xname \<mapsto>
          \<lparr>parameters = pts, result = r, doc = xname @ '' @ '' @ xloc\<rparr>)
     \<and> generated s' = generated s + 1 \<and> total_functions s' = total_functions s + 1"
proof -
  from assms(1) obtain out where m: "mapParameters (resolvedTypeDefs s) ps = (out, Inr (map Some pts))"
    by (cases "mapParameters (resolvedTypeDefs s) ps") auto
  from assms(2) obtain out2 where d: "denoFFIType (resolvedTypeDefs s) ret None = (out2, Inr (Some r))"
    by (cases "denoFFIType (resolvedTypeDefs s) ret None") auto
  have nn: "None \<notin> set (map Some pts)" by auto
  have f: "\<not> False" by simp
  from functionCase_generated[OF f f m nn d, of xname xloc]
  show ?thesis by (simp add: map_the_Some)
qed

section \<open>Facts about the typedef case\<close>

lemma sameButTable_refl: "sameButTable xname s s"
  by (simp add: sameButTable_def)

lemma sameButTable_trans:
  "sameButTable xname s t \<Longrightarrow> sameButTable xname t u \<Longrightarrow> sameButTable xname s u"
  by (auto simp: sameButTable_def)

lemma sameButTable_console_error: "sameButTable xname s (console_error out s)"
  by (simp add: sameButTable_def console_error_def)

lemma sameButTable_set:
  "sameButTable xname s (s\<lparr>resolvedTypeDefs := (resolvedTypeDefs s)(xname \<mapsto> n)\<rparr>)"
  by (auto simp: sameButTable_def)

text \<open>
  The inner loop changes nothing but \<open>resolvedTypeDefs\<close> at \<open>x.name\<close> and standard
  error, and it removes no name from \<open>resolvedTypeDefs\<close>.
\<close>

lemma anotherPass_frame:
  "anotherPass xname xtag ds res s = (s', r) \<Longrightarrow> sameButTable xname s s'"
proof (induction xname xtag ds res s arbitrary: s' r rule: anotherPass.induct)
  case (1 xname xtag res s)
  then show ?case by (simp add: sameButTable_refl)
next
  case (2 xname xtag yname ytype ys res s)
  show ?case
  proof (cases "yname = xtag")
    case False
    with 2 show ?thesis by simp
  next
    case True
    obtain out v where d: "denoFFIType (resolvedTypeDefs s) ytype (Some xname) = (out, v)"
      by (cases "denoFFIType (resolvedTypeDefs s) ytype (Some xname)")
    show ?thesis
    proof (cases v)
      case (Inl e)
      with 2(4) True d have "s' = console_error out s" by simp
      then show ?thesis by (simp add: sameButTable_console_error)
    next
      case (Inr w)
      show ?thesis
      proof (cases w)
        case None
        with 2(4) True d Inr
        have "anotherPass xname xtag ys None (console_error out s) = (s', r)" by simp
        from 2(1)[OF True d[symmetric] _ _ this] Inr None
        have "sameButTable xname (console_error out s) s'" by simp
        with sameButTable_console_error show ?thesis by (rule sameButTable_trans)
      next
        case (Some n)
        define t where "t = console_error out s"
        define u where "u = t\<lparr>resolvedTypeDefs := (resolvedTypeDefs t)(xname \<mapsto> n)\<rparr>"
        have tu: "u = (console_error out s)\<lparr>resolvedTypeDefs := (resolvedTypeDefs s)(xname \<mapsto> n)\<rparr>"
          by (simp add: u_def t_def console_error_def)
        from 2(4) True d Inr Some
        have "anotherPass xname xtag ys (Some n) u = (s', r)" by (simp add: tu)
        from 2(2)[OF True d[symmetric] _ _ this[unfolded tu]] Inr Some
        have "sameButTable xname u s'" by (simp add: tu)
        moreover have "sameButTable xname t u" unfolding u_def by (rule sameButTable_set)
        moreover have "sameButTable xname s t" unfolding t_def by (rule sameButTable_console_error)
        ultimately show ?thesis by (blast intro: sameButTable_trans)
      qed
    qed
  qed
qed simp_all

lemma anotherPass_raises:
  "anotherPass xname xtag ds res s = (s', Inl e) \<Longrightarrow> e = TypeError"
proof (induction xname xtag ds res s arbitrary: s' rule: anotherPass.induct)
  case (2 xname xtag yname ytype ys res s)
  show ?case
  proof (cases "yname = xtag")
    case False
    with 2 show ?thesis by simp
  next
    case True
    obtain out v where d: "denoFFIType (resolvedTypeDefs s) ytype (Some xname) = (out, v)"
      by (cases "denoFFIType (resolvedTypeDefs s) ytype (Some xname)")
    show ?thesis
    proof (cases v)
      case (Inl e')
      with d denoFFIType_raises(1)[of "resolvedTypeDefs s" ytype "Some xname" e'] 2(4) True
      show ?thesis by auto
    next
      case (Inr w)
      with 2 True d show ?thesis by (cases w) auto
    qed
  qed
qed simp_all

text \<open>No typedef of the wanted name in the list: the inner loop does nothing.\<close>

lemma anotherPass_no_match:
  "filter (isTypedefNamed xtag) ds = [] \<Longrightarrow> anotherPass xname xtag ds res s = (s, Inr res)"
  by (induction xname xtag ds res s rule: anotherPass.induct) (auto split: if_splits)

text \<open>Exactly one typedef of the wanted name, whose type maps: its value is stored.\<close>

lemma anotherPass_one_match:
  assumes "filter (isTypedefNamed xtag) ds = [Typedef xtag ytype]"
    and "denoFFIType (resolvedTypeDefs s) ytype (Some xname) = (out, Inr (Some n))"
  shows "anotherPass xname xtag ds res s =
     (s\<lparr>stderr := stderr s @ out, resolvedTypeDefs := (resolvedTypeDefs s)(xname \<mapsto> n)\<rparr>,
      Inr (Some n))"
  using assms
proof (induction xname xtag ds res s rule: anotherPass.induct)
  case (2 xname xtag yname yt ys res s)
  show ?case
  proof (cases "yname = xtag")
    case False
    with 2 show ?thesis by simp
  next
    case True
    with 2(4) have yt: "yt = ytype" and nomatch: "filter (isTypedefNamed xtag) ys = []" by auto
    have "anotherPass xname xtag (Typedef yname yt # ys) res s =
        anotherPass xname xtag ys (Some n)
          ((console_error out s)\<lparr>resolvedTypeDefs := (resolvedTypeDefs s)(xname \<mapsto> n)\<rparr>)"
      by (simp add: True yt 2(5))
    also have "\<dots> =
        ((console_error out s)\<lparr>resolvedTypeDefs := (resolvedTypeDefs s)(xname \<mapsto> n)\<rparr>,
         Inr (Some n))"
      by (rule anotherPass_no_match[OF nomatch])
    finally have "anotherPass xname xtag (Typedef yname yt # ys) res s =
        ((console_error out s)\<lparr>resolvedTypeDefs := (resolvedTypeDefs s)(xname \<mapsto> n)\<rparr>,
         Inr (Some n))" .
    then show ?thesis by (simp only: console_error_def)
  qed
qed simp_all

text \<open>The typedef case, by the outcome of the direct mapping and of the inner loop.\<close>

lemma typedefCase_raises_direct:
  assumes "denoFFIType (resolvedTypeDefs s) xtype (Some xname) = (out, Inl e)"
  shows "typedefCase symbols xname xtype s =
     (s\<lparr>totalTypeDefs := totalTypeDefs s + 1, stderr := stderr s @ out\<rparr>, Some e)"
  using assms by (simp add: typedefCase_def console_error_def Let_def)

lemma typedefCase_direct:
  assumes "denoFFIType (resolvedTypeDefs s) xtype (Some xname) = (out, Inr (Some r))"
  shows "typedefCase symbols xname xtype s =
     (s\<lparr>totalTypeDefs := totalTypeDefs s + 1, stderr := stderr s @ out,
        resolvedTypeDefs := (resolvedTypeDefs s)(xname \<mapsto> r),
        generatedTypeDefs := generatedTypeDefs s + 1\<rparr>, None)"
  using assms by (simp add: typedefCase_def console_error_def Let_def)

lemma typedefCase_another:
  assumes "denoFFIType (resolvedTypeDefs s) xtype (Some xname) = (out, Inr None)"
    and "anotherPass xname (tag xtype) symbols None
           (s\<lparr>totalTypeDefs := totalTypeDefs s + 1, stderr := stderr s @ out\<rparr>) = (s2, v)"
  shows "typedefCase symbols xname xtype s =
     (case v of
        Inl e \<Rightarrow> (s2, Some e)
      | Inr None \<Rightarrow> (s2, None)
      | Inr (Some r) \<Rightarrow>
          (s2\<lparr>resolvedTypeDefs := (resolvedTypeDefs s2)(xname \<mapsto> r),
               generatedTypeDefs := generatedTypeDefs s2 + 1\<rparr>, None))"
proof -
  have "console_error out (s\<lparr>totalTypeDefs := Suc (totalTypeDefs s)\<rparr>) =
      s\<lparr>totalTypeDefs := totalTypeDefs s + 1, stderr := stderr s @ out\<rparr>"
    by (simp add: console_error_def)
  with assms show ?thesis
    by (cases v) (simp_all add: typedefCase_def Let_def split: option.splits)
qed

text \<open>
  The typedef case when the direct mapping gives \<open>null\<close> and exactly one typedef of the
  list is named \<open>x.type.tag\<close>, with a type that maps.
\<close>

lemma typedefCase_lookahead:
  assumes "denoFFIType (resolvedTypeDefs s) xtype (Some xname) = (out, Inr None)"
    and "filter (isTypedefNamed (tag xtype)) symbols = [Typedef (tag xtype) ytype]"
    and "denoFFIType (resolvedTypeDefs s) ytype (Some xname) = (out2, Inr (Some n))"
  shows "typedefCase symbols xname xtype s =
     (s\<lparr>totalTypeDefs := totalTypeDefs s + 1, stderr := stderr s @ out @ out2,
        resolvedTypeDefs := (resolvedTypeDefs s)(xname \<mapsto> n),
        generatedTypeDefs := generatedTypeDefs s + 1\<rparr>, None)"
proof -
  define t where "t = s\<lparr>totalTypeDefs := totalTypeDefs s + 1, stderr := stderr s @ out\<rparr>"
  have rt: "resolvedTypeDefs t = resolvedTypeDefs s" by (simp add: t_def)
  from assms(3) rt have "denoFFIType (resolvedTypeDefs t) ytype (Some xname) = (out2, Inr (Some n))"
    by simp
  from anotherPass_one_match[OF assms(2) this]
  have ap: "anotherPass xname (tag xtype) symbols None t =
      (t\<lparr>stderr := stderr t @ out2, resolvedTypeDefs := (resolvedTypeDefs t)(xname \<mapsto> n)\<rparr>,
       Inr (Some n))" .
  from typedefCase_another[OF assms(1) ap[unfolded t_def]]
  show ?thesis by simp
qed

text \<open>The typedef case when neither the direct mapping nor any typedef of that name helps.\<close>

lemma typedefCase_skipped:
  assumes "denoFFIType (resolvedTypeDefs s) xtype (Some xname) = (out, Inr None)"
    and "filter (isTypedefNamed (tag xtype)) symbols = []"
  shows "typedefCase symbols xname xtype s =
     (s\<lparr>totalTypeDefs := totalTypeDefs s + 1, stderr := stderr s @ out\<rparr>, None)"
  using typedefCase_another[OF assms(1) anotherPass_no_match[OF assms(2)]] by simp

lemma typedefCase_frame:
  assumes "typedefCase symbols xname xtype s = (s', r)"
  shows "symbolSource s' = symbolSource s \<and> total_functions s' = total_functions s
     \<and> generated s' = generated s \<and> unknowns s' = unknowns s
     \<and> totalTypeDefs s' = totalTypeDefs s + 1
     \<and> dom (resolvedTypeDefs s) \<subseteq> dom (resolvedTypeDefs s')
     \<and> resolvedTypeDefs s' |` (- {xname}) = resolvedTypeDefs s |` (- {xname})"
proof -
  obtain out v where d: "denoFFIType (resolvedTypeDefs s) xtype (Some xname) = (out, v)"
    by (cases "denoFFIType (resolvedTypeDefs s) xtype (Some xname)")
  define t where "t = s\<lparr>totalTypeDefs := totalTypeDefs s + 1, stderr := stderr s @ out\<rparr>"
  have t: "symbolSource t = symbolSource s \<and> total_functions t = total_functions s
     \<and> generated t = generated s \<and> unknowns t = unknowns s
     \<and> totalTypeDefs t = totalTypeDefs s + 1 \<and> resolvedTypeDefs t = resolvedTypeDefs s"
    by (simp add: t_def)
  show ?thesis
  proof (cases v)
    case (Inl e)
    with assms d typedefCase_raises_direct[of s xtype xname out e symbols]
    have "s' = t" by (simp add: t_def)
    with t show ?thesis by simp
  next
    case (Inr res)
    show ?thesis
    proof (cases res)
      case (Some n)
      with assms d Inr typedefCase_direct[of s xtype xname out n symbols]
      have "s' = t\<lparr>resolvedTypeDefs := (resolvedTypeDefs s)(xname \<mapsto> n),
          generatedTypeDefs := generatedTypeDefs s + 1\<rparr>"
        by (simp add: t_def)
      with t show ?thesis by auto
    next
      case None
      obtain s2 v2 where p: "anotherPass xname (tag xtype) symbols None t = (s2, v2)"
        by (cases "anotherPass xname (tag xtype) symbols None t")
      from anotherPass_frame[OF p] t
      have base: "symbolSource s2 = symbolSource s \<and> total_functions s2 = total_functions s
         \<and> generated s2 = generated s \<and> unknowns s2 = unknowns s
         \<and> totalTypeDefs s2 = totalTypeDefs s + 1
         \<and> dom (resolvedTypeDefs s) \<subseteq> dom (resolvedTypeDefs s2)
         \<and> resolvedTypeDefs s2 |` (- {xname}) = resolvedTypeDefs s |` (- {xname})"
        by (simp add: sameButTable_def)
      from d Inr None have d': "denoFFIType (resolvedTypeDefs s) xtype (Some xname) = (out, Inr None)"
        by simp
      from typedefCase_another[OF d' p[unfolded t_def]] assms
      have "s' = s2 \<or> (\<exists>n. s' = s2\<lparr>resolvedTypeDefs := (resolvedTypeDefs s2)(xname \<mapsto> n),
           generatedTypeDefs := generatedTypeDefs s2 + 1\<rparr>)"
        by (auto split: sum.splits option.splits)
      then show ?thesis
      proof
        assume "s' = s2"
        with base show ?thesis by simp
      next
        assume "\<exists>n. s' = s2\<lparr>resolvedTypeDefs := (resolvedTypeDefs s2)(xname \<mapsto> n),
           generatedTypeDefs := generatedTypeDefs s2 + 1\<rparr>"
        then obtain n where "s' = s2\<lparr>resolvedTypeDefs := (resolvedTypeDefs s2)(xname \<mapsto> n),
           generatedTypeDefs := generatedTypeDefs s2 + 1\<rparr>" ..
        with base show ?thesis by auto
      qed
    qed
  qed
qed

lemma typedefCase_raises:
  assumes "typedefCase symbols xname xtype s = (s', Some e)"
  shows "e = TypeError"
proof -
  obtain out v where d: "denoFFIType (resolvedTypeDefs s) xtype (Some xname) = (out, v)"
    by (cases "denoFFIType (resolvedTypeDefs s) xtype (Some xname)")
  show ?thesis
  proof (cases v)
    case (Inl e')
    with d denoFFIType_raises(1)[of "resolvedTypeDefs s" xtype "Some xname" e'] assms
      typedefCase_raises_direct[of s xtype xname out e' symbols]
    show ?thesis by simp
  next
    case (Inr res)
    show ?thesis
    proof (cases res)
      case (Some n)
      with assms d Inr typedefCase_direct[of s xtype xname out n symbols]
      show ?thesis by simp
    next
      case None
      obtain s2 v2 where p: "anotherPass xname (tag xtype) symbols None
          (s\<lparr>totalTypeDefs := totalTypeDefs s + 1, stderr := stderr s @ out\<rparr>) = (s2, v2)"
        by (cases "anotherPass xname (tag xtype) symbols None
          (s\<lparr>totalTypeDefs := totalTypeDefs s + 1, stderr := stderr s @ out\<rparr>)")
      from d Inr None have d': "denoFFIType (resolvedTypeDefs s) xtype (Some xname) = (out, Inr None)"
        by simp
      from typedefCase_another[OF d' p] assms have "v2 = Inl e"
        by (auto split: sum.splits option.splits)
      with p show ?thesis by (auto dest: anotherPass_raises)
    qed
  qed
qed

lemma typedef_direct:
  assumes "snd (denoFFIType (resolvedTypeDefs s) xtype (Some xname)) = Inr (Some r)"
  shows "\<exists>s'. typedefCase symbols xname xtype s = (s', None)
     \<and> resolvedTypeDefs s' = (resolvedTypeDefs s)(xname \<mapsto> r)
     \<and> totalTypeDefs s' = totalTypeDefs s + 1
     \<and> generatedTypeDefs s' = generatedTypeDefs s + 1"
proof -
  from assms obtain out where "denoFFIType (resolvedTypeDefs s) xtype (Some xname) = (out, Inr (Some r))"
    by (cases "denoFFIType (resolvedTypeDefs s) xtype (Some xname)") auto
  from typedefCase_direct[OF this, of symbols] show ?thesis by simp
qed

lemma typedef_one_hop:
  assumes "snd (denoFFIType (resolvedTypeDefs s) xtype (Some xname)) = Inr None"
    and "filter (isTypedefNamed (tag xtype)) symbols = [Typedef (tag xtype) ytype]"
    and "snd (denoFFIType (resolvedTypeDefs s) ytype h) = Inr (Some n)"
  shows "\<exists>s'. typedefCase symbols xname xtype s = (s', None)
     \<and> resolvedTypeDefs s' = (resolvedTypeDefs s)(xname \<mapsto> n)
     \<and> totalTypeDefs s' = totalTypeDefs s + 1
     \<and> generatedTypeDefs s' = generatedTypeDefs s + 1"
proof -
  from assms(1) obtain out where d: "denoFFIType (resolvedTypeDefs s) xtype (Some xname) = (out, Inr None)"
    by (cases "denoFFIType (resolvedTypeDefs s) xtype (Some xname)") auto
  from assms(3) denoFFIType_hint[of "resolvedTypeDefs s" ytype h "Some xname"]
  obtain out2 where y: "denoFFIType (resolvedTypeDefs s) ytype (Some xname) = (out2, Inr (Some n))"
    by (cases "denoFFIType (resolvedTypeDefs s) ytype (Some xname)") auto
  from typedefCase_lookahead[OF d assms(2) y] show ?thesis by simp
qed

section \<open>Facts about the loop\<close>

lemma step_table_grows:
  "dom (resolvedTypeDefs s) \<subseteq> dom (resolvedTypeDefs (fst (step symbols x s)))"
proof (cases x)
  case (Typedef xname xtype)
  obtain s' r where "typedefCase symbols xname xtype s = (s', r)"
    by (cases "typedefCase symbols xname xtype s")
  with typedefCase_frame[OF this] Typedef show ?thesis by simp
next
  case (StructDef xname flds)
  obtain s' r where "typedefCase symbols xname (structAsType flds) s = (s', r)"
    by (cases "typedefCase symbols xname (structAsType flds) s")
  with typedefCase_frame[OF this] StructDef show ?thesis by simp
next
  case (Function xname xloc xvariadic xinline ps ret)
  then show ?thesis by (simp add: functionCase_frame)
next
  case (Unknown t)
  then show ?thesis by (simp add: console_error_def)
qed

lemma loop_table_grows:
  "dom (resolvedTypeDefs s) \<subseteq> dom (resolvedTypeDefs (fst (loop symbols xs s)))"
proof (induction xs arbitrary: s)
  case Nil
  show ?case by simp
next
  case (Cons x xs)
  obtain s' r where st: "step symbols x s = (s', r)" by (cases "step symbols x s")
  from step_table_grows[of s symbols x] st
  have a: "dom (resolvedTypeDefs s) \<subseteq> dom (resolvedTypeDefs s')" by simp
  show ?case
  proof (cases r)
    case None
    with st Cons.IH[of s'] a show ?thesis by auto
  next
    case (Some e)
    with st a show ?thesis by simp
  qed
qed

lemma step_keeps_symbol:
  assumes "\<not> isPlainFunctionNamed n x"
  shows "symbolSource (fst (step symbols x s)) n = symbolSource s n"
proof (cases x)
  case (Typedef xname xtype)
  obtain s' r where "typedefCase symbols xname xtype s = (s', r)"
    by (cases "typedefCase symbols xname xtype s")
  with typedefCase_frame[OF this] Typedef show ?thesis by simp
next
  case (StructDef xname flds)
  obtain s' r where "typedefCase symbols xname (structAsType flds) s = (s', r)"
    by (cases "typedefCase symbols xname (structAsType flds) s")
  with typedefCase_frame[OF this] StructDef show ?thesis by simp
next
  case (Function xname xloc xvariadic xinline ps ret)
  show ?thesis
  proof (cases "xinline \<or> xvariadic")
    case True
    with Function show ?thesis by (simp add: functionCase_flagged)
  next
    case False
    with assms Function have "n \<noteq> xname" by simp
    with Function show ?thesis by (simp add: functionCase_other_name)
  qed
next
  case (Unknown t)
  then show ?thesis by (simp add: console_error_def)
qed

lemma loop_keeps_symbol:
  "filter (isPlainFunctionNamed n) xs = [] \<Longrightarrow>
   symbolSource (fst (loop symbols xs s)) n = symbolSource s n"
proof (induction xs arbitrary: s)
  case Nil
  show ?case by simp
next
  case (Cons x xs)
  from Cons.prems have nx: "\<not> isPlainFunctionNamed n x"
    and rest: "filter (isPlainFunctionNamed n) xs = []" by (auto split: if_splits)
  obtain s' r where st: "step symbols x s = (s', r)" by (cases "step symbols x s")
  from step_keeps_symbol[OF nx, of symbols s] st
  have a: "symbolSource s' n = symbolSource s n" by simp
  show ?case
  proof (cases r)
    case None
    with st Cons.IH[OF rest, of s'] a show ?thesis by simp
  next
    case (Some e)
    with st a show ?thesis by simp
  qed
qed

lemma step_symbols_grow:
  "dom (symbolSource s) \<subseteq> dom (symbolSource (fst (step symbols x s)))"
proof (cases x)
  case (Typedef xname xtype)
  obtain s' r where "typedefCase symbols xname xtype s = (s', r)"
    by (cases "typedefCase symbols xname xtype s")
  with typedefCase_frame[OF this] Typedef show ?thesis by simp
next
  case (StructDef xname flds)
  obtain s' r where "typedefCase symbols xname (structAsType flds) s = (s', r)"
    by (cases "typedefCase symbols xname (structAsType flds) s")
  with typedefCase_frame[OF this] StructDef show ?thesis by simp
next
  case (Function xname xloc xvariadic xinline ps ret)
  then show ?thesis
    by (auto simp: functionCase_def console_error_def Let_def
        split: prod.splits sum.splits option.splits)
next
  case (Unknown t)
  then show ?thesis by (simp add: console_error_def)
qed

lemma step_generated_mono:
  "generated s \<le> generated (fst (step symbols x s))"
proof (cases x)
  case (Typedef xname xtype)
  obtain s' r where "typedefCase symbols xname xtype s = (s', r)"
    by (cases "typedefCase symbols xname xtype s")
  with typedefCase_frame[OF this] Typedef show ?thesis by simp
next
  case (StructDef xname flds)
  obtain s' r where "typedefCase symbols xname (structAsType flds) s = (s', r)"
    by (cases "typedefCase symbols xname (structAsType flds) s")
  with typedefCase_frame[OF this] StructDef show ?thesis by simp
next
  case (Function xname xloc xvariadic xinline ps ret)
  then show ?thesis by (simp add: functionCase_generated_mono)
next
  case (Unknown t)
  then show ?thesis by (simp add: console_error_def)
qed

lemma loop_symbols_grow:
  "dom (symbolSource s) \<subseteq> dom (symbolSource (fst (loop symbols xs s)))
   \<and> generated s \<le> generated (fst (loop symbols xs s))"
proof (induction xs arbitrary: s)
  case Nil
  show ?case by simp
next
  case (Cons x xs)
  obtain s' r where st: "step symbols x s = (s', r)" by (cases "step symbols x s")
  from step_symbols_grow[of s symbols x] step_generated_mono[of s symbols x] st
  have a: "dom (symbolSource s) \<subseteq> dom (symbolSource s')" "generated s \<le> generated s'" by simp_all
  show ?case
  proof (cases r)
    case None
    with st Cons.IH[of s'] a show ?thesis by auto
  next
    case (Some e)
    with st a show ?thesis by simp
  qed
qed

lemma loop_append:
  "loop symbols (xs @ ys) s =
    (case loop symbols xs s of (s', Some e) \<Rightarrow> (s', Some e) | (s', None) \<Rightarrow> loop symbols ys s')"
  by (induction xs arbitrary: s) (auto split: prod.splits option.splits)

text \<open>Once a definition raises, no later definition is processed.\<close>

lemma loop_stops:
  "step symbols x s = (s', Some e) \<Longrightarrow> loop symbols (x # rest) s = (s', Some e)"
  by simp

lemma step_raises_only:
  assumes "step symbols x s = (s', Some e)"
  shows "e = TypeError \<or>
    (\<exists>xname xloc ps ret. x = Function xname xloc False False ps ret \<and>
       (\<exists>p\<in>set ps. (ptag p \<noteq> ''parameter'' \<and> e = UnexpectedParameterTag (ptag p)) \<or>
          (ptag p = ''parameter''
           \<and> snd (denoFFIType (resolvedTypeDefs s) (ptype p) None) = Inr (Some Void)
           \<and> e = UnexpectedVoidParameter (pname p))))"
proof (cases x)
  case (Typedef xname xtype)
  with assms typedefCase_raises show ?thesis by auto
next
  case (StructDef xname flds)
  with assms typedefCase_raises show ?thesis by auto
next
  case (Function xname xloc xvariadic xinline ps ret)
  with assms have "functionCase xname xloc xvariadic xinline ps ret s = (s', Some e)" by simp
  from functionCase_raises_only[OF this] Function show ?thesis by auto
next
  case (Unknown t)
  with assms show ?thesis by simp
qed

section \<open>Facts about exceptions\<close>

text \<open>
  The Type Mapper raises exactly when it reaches a struct field without \<open>type\<close>,
  whatever the state of \<open>resolvedTypeDefs\<close> and the hint.
\<close>

lemma raises_iff_lacks:
  "(\<exists>e. snd (denoFFIType rtd t hint) = Inl e) \<longleftrightarrow> lacksFieldType t"
  "(\<exists>e. snd (mapFields rtd fl) = Inl e) \<longleftrightarrow> anyLacksFieldType fl"
proof (induction rtd t hint and rtd fl rule: denoFFIType_mapFields.induct)
  case (1 rtd tg fs ty hint)
  show ?case
  proof (cases "tg = '':struct'' \<or> tg = ''struct''")
    case False
    then show ?thesis by simp
  next
    case True
    show ?thesis
    proof (cases fs)
      case None
      with True show ?thesis by auto
    next
      case (Some fl)
      from 1[OF True Some]
      have IH: "(\<exists>e. snd (mapFields rtd fl) = Inl e) \<longleftrightarrow> anyLacksFieldType fl" .
      obtain out v where m: "mapFields rtd fl = (out, v)" by (cases "mapFields rtd fl")
      show ?thesis
      proof (cases v)
        case (Inl e)
        with m IH have "anyLacksFieldType fl" by auto
        with True Some m Inl show ?thesis by auto
      next
        case (Inr rs)
        with m IH have "\<not> anyLacksFieldType fl" by auto
        with True Some m Inr show ?thesis by auto
      qed
    qed
  qed
next
  case (2 rtd)
  show ?case by simp
next
  case (3 rtd tg fs rest)
  show ?case by simp
next
  case (4 rtd tg fs ft rest)
  obtain o1 r1 where d: "denoFFIType rtd ft None = (o1, r1)" by (cases "denoFFIType rtd ft None")
  from 4(1) d have IH1: "(\<exists>e. r1 = Inl e) \<longleftrightarrow> lacksFieldType ft" by simp
  show ?case
  proof (cases r1)
    case (Inl e)
    with IH1 have "lacksFieldType ft" by simp
    with d Inl show ?thesis by simp
  next
    case (Inr r)
    with IH1 have nl: "\<not> lacksFieldType ft" by auto
    from 4(2)[OF d[symmetric] Inr]
    have IH2: "(\<exists>e. snd (mapFields rtd rest) = Inl e) \<longleftrightarrow> anyLacksFieldType rest" .
    obtain o2 r2 where m: "mapFields rtd rest = (o2, r2)" by (cases "mapFields rtd rest")
    show ?thesis
    proof (cases r2)
      case (Inl e)
      with m IH2 have "anyLacksFieldType rest" by auto
      with d \<open>r1 = Inr r\<close> m Inl show ?thesis by simp
    next
      case (Inr rs)
      with m IH2 have "\<not> anyLacksFieldType rest" by auto
      with d \<open>r1 = Inr r\<close> m Inr nl show ?thesis by simp
    qed
  qed
qed

lemma field_without_type_lacks:
  "\<exists>f\<in>set fl. type f = None \<Longrightarrow> anyLacksFieldType fl"
proof (induction fl)
  case Nil
  then show ?case by simp
next
  case (Cons f rest)
  obtain tg fs ty where f: "f = Type tg fs ty" by (cases f)
  show ?case
  proof (cases ty)
    case None
    with f show ?thesis by simp
  next
    case (Some ft)
    with f Cons.prems have "\<exists>f\<in>set rest. type f = None" by auto
    from Cons.IH[OF this] f Some show ?thesis by simp
  qed
qed

lemma struct_field_without_type_raises:
  assumes "tg = '':struct'' \<or> tg = ''struct''" and "\<exists>f\<in>set fl. type f = None"
  shows "snd (denoFFIType rtd (Type tg (Some fl) ty) hint) = Inl TypeError"
proof -
  from field_without_type_lacks[OF assms(2)] assms(1)
  have "lacksFieldType (Type tg (Some fl) ty)" by auto
  then obtain e where e: "snd (denoFFIType rtd (Type tg (Some fl) ty) hint) = Inl e"
    using raises_iff_lacks(1)[of rtd "Type tg (Some fl) ty" hint] by blast
  with denoFFIType_raises(1)[OF e] show ?thesis by simp
qed

text \<open>
  An exception out of the inner loop, the typedef case, the function case or a step, with
  the type that caused it.
\<close>

lemma anotherPass_raises_why:
  "anotherPass xname xtag ds res s = (s', Inl e) \<Longrightarrow>
     e = TypeError \<and> (\<exists>t\<in>set (typedefTypes xtag ds). lacksFieldType t)"
proof (induction xname xtag ds res s arbitrary: s' rule: anotherPass.induct)
  case (2 xname xtag yname ytype ys res s)
  show ?case
  proof (cases "yname = xtag")
    case False
    with 2 show ?thesis by simp
  next
    case True
    obtain out v where d: "denoFFIType (resolvedTypeDefs s) ytype (Some xname) = (out, v)"
      by (cases "denoFFIType (resolvedTypeDefs s) ytype (Some xname)")
    show ?thesis
    proof (cases v)
      case (Inl e')
      with d have r: "snd (denoFFIType (resolvedTypeDefs s) ytype (Some xname)) = Inl e'" by simp
      then have "lacksFieldType ytype"
        using raises_iff_lacks(1)[of "resolvedTypeDefs s" ytype "Some xname"] by blast
      moreover from d Inl 2(4) True have "e = e'" by simp
      ultimately show ?thesis using denoFFIType_raises(1)[OF r] True by simp
    next
      case (Inr w)
      show ?thesis
      proof (cases w)
        case None
        with 2(4) True d Inr
        have "anotherPass xname xtag ys None (console_error out s) = (s', Inl e)" by simp
        from 2(1)[OF True d[symmetric] _ _ this] Inr None True show ?thesis by simp
      next
        case (Some n)
        with 2(4) True d Inr
        have "anotherPass xname xtag ys (Some n)
            ((console_error out s)\<lparr>resolvedTypeDefs := (resolvedTypeDefs s)(xname \<mapsto> n)\<rparr>)
            = (s', Inl e)" by simp
        from 2(2)[OF True d[symmetric] _ _ this] Inr Some True show ?thesis by simp
      qed
    qed
  qed
qed simp_all

lemma typedefCase_raises_why:
  assumes "typedefCase symbols xname xtype s = (s', Some e)"
  shows "e = TypeError \<and>
    (\<exists>t\<in>set (xtype # typedefTypes (tag xtype) symbols). lacksFieldType t)"
proof -
  obtain out v where d: "denoFFIType (resolvedTypeDefs s) xtype (Some xname) = (out, v)"
    by (cases "denoFFIType (resolvedTypeDefs s) xtype (Some xname)")
  show ?thesis
  proof (cases v)
    case (Inl e')
    with d have r: "snd (denoFFIType (resolvedTypeDefs s) xtype (Some xname)) = Inl e'" by simp
    then have "lacksFieldType xtype"
      using raises_iff_lacks(1)[of "resolvedTypeDefs s" xtype "Some xname"] by blast
    moreover from d Inl assms typedefCase_raises_direct[of s xtype xname out e' symbols]
    have "e = e'" by simp
    ultimately show ?thesis using denoFFIType_raises(1)[OF r] by simp
  next
    case (Inr res)
    show ?thesis
    proof (cases res)
      case (Some n)
      with assms d Inr typedefCase_direct[of s xtype xname out n symbols]
      show ?thesis by simp
    next
      case None
      obtain s2 v2 where p: "anotherPass xname (tag xtype) symbols None
          (s\<lparr>totalTypeDefs := totalTypeDefs s + 1, stderr := stderr s @ out\<rparr>) = (s2, v2)"
        by (cases "anotherPass xname (tag xtype) symbols None
          (s\<lparr>totalTypeDefs := totalTypeDefs s + 1, stderr := stderr s @ out\<rparr>)")
      from d Inr None have d': "denoFFIType (resolvedTypeDefs s) xtype (Some xname) = (out, Inr None)"
        by simp
      from typedefCase_another[OF d' p] assms have "v2 = Inl e"
        by (auto split: sum.splits option.splits)
      with p anotherPass_raises_why[of xname "tag xtype" symbols None _ s2 e]
      show ?thesis by simp
    qed
  qed
qed

lemma functionCase_raises_why:
  assumes "functionCase xname xloc xvariadic xinline ps ret s = (s', Some e)"
  shows "\<not> xinline \<and> \<not> xvariadic \<and>
    ((e = TypeError \<and> (\<exists>t\<in>set (map ptype ps @ [ret]). lacksFieldType t)) \<or>
     (\<exists>p\<in>set ps. (ptag p \<noteq> ''parameter'' \<and> e = UnexpectedParameterTag (ptag p)) \<or>
        (ptag p = ''parameter'' \<and> snd (denoFFIType (resolvedTypeDefs s) (ptype p) None) = Inr (Some Void)
         \<and> e = UnexpectedVoidParameter (pname p))))"
proof -
  from assms have flags: "\<not> xinline" "\<not> xvariadic"
    by (auto simp: functionCase_flagged)
  obtain out v where m: "mapParameters (resolvedTypeDefs s) ps = (out, v)"
    by (cases "mapParameters (resolvedTypeDefs s) ps")
  have "(e = TypeError \<and> (\<exists>t\<in>set (map ptype ps @ [ret]). lacksFieldType t)) \<or>
     (\<exists>p\<in>set ps. (ptag p \<noteq> ''parameter'' \<and> e = UnexpectedParameterTag (ptag p)) \<or>
        (ptag p = ''parameter'' \<and> snd (denoFFIType (resolvedTypeDefs s) (ptype p) None) = Inr (Some Void)
         \<and> e = UnexpectedVoidParameter (pname p)))"
  proof (cases v)
    case (Inl e')
    with assms flags m functionCase_raises_parameter[OF flags, of s ps out e' xname xloc ret]
    have "e' = e" by simp
    with m Inl have "snd (mapParameters (resolvedTypeDefs s) ps) = Inl e" by simp
    from mapParameters_raises[OF this] obtain p where p: "p \<in> set ps"
      and pe: "snd (denoFFIParameter (resolvedTypeDefs s) p) = Inl e" by blast
    show ?thesis
    proof (cases "ptag p = ''parameter''")
      case False
      with pe have "e = UnexpectedParameterTag (ptag p)" by (simp add: denoFFIParameter_result)
      with p False show ?thesis by blast
    next
      case True
      show ?thesis
      proof (cases "snd (denoFFIType (resolvedTypeDefs s) (ptype p) None)")
        case (Inl e2)
        with pe True have "e2 = e" by (simp add: denoFFIParameter_result)
        with Inl have r: "snd (denoFFIType (resolvedTypeDefs s) (ptype p) None) = Inl e" by simp
        then have "lacksFieldType (ptype p)"
          using raises_iff_lacks(1)[of "resolvedTypeDefs s" "ptype p" None] by blast
        with p denoFFIType_raises(1)[OF r] show ?thesis by auto
      next
        case (Inr ty)
        with pe True have "ty = Some Void \<and> e = UnexpectedVoidParameter (pname p)"
          by (simp add: denoFFIParameter_result split: if_splits)
        with p True Inr show ?thesis by blast
      qed
    qed
  next
    case (Inr rs)
    show ?thesis
    proof (cases "None \<in> set rs")
      case True
      with assms flags m Inr functionCase_unmapped_parameter[OF flags, of s ps out rs xname xloc ret]
      show ?thesis by simp
    next
      case False
      obtain out2 v2 where d: "denoFFIType (resolvedTypeDefs s) ret None = (out2, v2)"
        by (cases "denoFFIType (resolvedTypeDefs s) ret None")
      show ?thesis
      proof (cases v2)
        case (Inl e2)
        with assms m Inr False d
          functionCase_raises_return[OF flags, of s ps out rs ret out2 e2 xname xloc]
        have "e2 = e" by simp
        with d Inl have r: "snd (denoFFIType (resolvedTypeDefs s) ret None) = Inl e" by simp
        then have "lacksFieldType ret"
          using raises_iff_lacks(1)[of "resolvedTypeDefs s" ret None] by blast
        with denoFFIType_raises(1)[OF r] show ?thesis by simp
      next
        case (Inr w)
        show ?thesis
        proof (cases w)
          case None
          with assms m \<open>v = Inr rs\<close> False d Inr
            functionCase_unmapped_return[OF flags, of s ps out rs ret out2 xname xloc]
          show ?thesis by simp
        next
          case (Some r)
          with assms m \<open>v = Inr rs\<close> False d Inr
            functionCase_generated[OF flags, of s ps out rs ret out2 r xname xloc]
          show ?thesis by simp
        qed
      qed
    qed
  qed
  with flags show ?thesis by simp
qed

lemma step_raises_why:
  assumes "step symbols x s = (s', Some e)"
  shows "(e = TypeError \<and> (\<exists>t\<in>set (mappedTypes symbols x). lacksFieldType t)) \<or>
    (\<exists>xname xloc ps ret. x = Function xname xloc False False ps ret \<and>
       (\<exists>p\<in>set ps. (ptag p \<noteq> ''parameter'' \<and> e = UnexpectedParameterTag (ptag p)) \<or>
          (ptag p = ''parameter''
           \<and> snd (denoFFIType (resolvedTypeDefs s) (ptype p) None) = Inr (Some Void)
           \<and> e = UnexpectedVoidParameter (pname p))))"
proof (cases x)
  case (Typedef xname xtype)
  with assms have "typedefCase symbols xname xtype s = (s', Some e)" by simp
  from typedefCase_raises_why[OF this] Typedef show ?thesis by simp
next
  case (StructDef xname flds)
  with assms have "typedefCase symbols xname (structAsType flds) s = (s', Some e)" by simp
  from typedefCase_raises_why[OF this] StructDef show ?thesis by simp
next
  case (Function xname xloc xvariadic xinline ps ret)
  with assms have "functionCase xname xloc xvariadic xinline ps ret s = (s', Some e)" by simp
  from functionCase_raises_why[OF this] Function show ?thesis by auto
next
  case (Unknown t)
  with assms show ?thesis by simp
qed

section \<open>The claims\<close>

text \<open>
  Claim C1, as amended. For a Type whose tag is \<open>":struct"\<close> or \<open>"struct"\<close>:
  without a field list the result is \<open>null\<close> (unmapped); if every field has a type that
  maps to a value \<open>n\<close>, the result is the aggregate of these values in the order of the
  fields; if the mapping of every field returns and one of them returns \<open>null\<close>, the
  result is \<open>null\<close>; and whenever a value is returned it is an aggregate with one
  component per field, so no partial aggregate is produced. The mapping of every field
  has to return: if any field has no \<open>type\<close>, the Type Mapper raises a \<open>TypeError\<close>
  instead, whatever the other fields are.
\<close>

theorem struct_all_or_nothing:
  assumes "tg = '':struct'' \<or> tg = ''struct''"
  shows "snd (denoFFIType rtd (Type tg None ty) hint) = Inr None
    \<and> (map (mapField rtd) fl = map (\<lambda>n. Inr (Some n)) ns \<longrightarrow>
         snd (denoFFIType rtd (Type tg (Some fl) ty) hint) = Inr (Some (Struct ns)))
    \<and> (map (mapField rtd) fl = map Inr rs \<and> None \<in> set rs \<longrightarrow>
         snd (denoFFIType rtd (Type tg (Some fl) ty) hint) = Inr None)
    \<and> (snd (denoFFIType rtd (Type tg (Some fl) ty) hint) = Inr (Some v) \<longrightarrow>
         (\<exists>ns. v = Struct ns \<and> map (mapField rtd) fl = map (\<lambda>n. Inr (Some n)) ns))
    \<and> ((\<exists>f\<in>set fl. type f = None) \<longrightarrow>
         snd (denoFFIType rtd (Type tg (Some fl) ty) hint) = Inl TypeError)"
proof -
  have "snd (denoFFIType rtd (Type tg None ty) hint) = Inr None"
    by (simp only: denoFFIType_struct_absent[OF assms] snd_conv)
  moreover have "map (mapField rtd) fl = map (\<lambda>n. Inr (Some n)) ns \<longrightarrow>
      snd (denoFFIType rtd (Type tg (Some fl) ty) hint) = Inr (Some (Struct ns))"
    using struct_all_mapped[OF assms] by blast
  moreover have "map (mapField rtd) fl = map Inr rs \<and> None \<in> set rs \<longrightarrow>
      snd (denoFFIType rtd (Type tg (Some fl) ty) hint) = Inr None"
    using struct_some_unmapped[OF assms] by blast
  moreover have "snd (denoFFIType rtd (Type tg (Some fl) ty) hint) = Inr (Some v) \<longrightarrow>
      (\<exists>ns. v = Struct ns \<and> map (mapField rtd) fl = map (\<lambda>n. Inr (Some n)) ns)"
    using struct_result_complete[OF assms, of rtd "Some fl" ty hint v] by blast
  moreover have "(\<exists>f\<in>set fl. type f = None) \<longrightarrow>
      snd (denoFFIType rtd (Type tg (Some fl) ty) hint) = Inl TypeError"
    using struct_field_without_type_raises[OF assms, of fl rtd ty hint] by blast
  ultimately show ?thesis by blast
qed

theorem struct_all_or_nothing_witness:
  "snd (denoFFIType Map.empty (Type ''struct'' None None) (Some ''S'')) = Inr None
   \<and> snd (denoFFIType Map.empty
        (Type ''struct'' (Some [Type ''field'' None (Some (Type '':int'' None None)),
                                Type ''field'' None (Some (Type '':char'' None None))]) None)
        (Some ''S'')) = Inr (Some (Struct [I32, U8]))
   \<and> snd (denoFFIType Map.empty
        (Type ''struct'' (Some [Type ''field'' None (Some (Type '':int'' None None)),
                                Type ''field'' None (Some (Type ''nope'' None None))]) None)
        (Some ''S'')) = Inr None
   \<and> (\<exists>ns. Struct [I32, U8] = Struct ns
         \<and> map (mapField Map.empty)
              [Type ''field'' None (Some (Type '':int'' None None)),
               Type ''field'' None (Some (Type '':char'' None None))]
             = map (\<lambda>n. Inr (Some n)) ns)
   \<and> snd (denoFFIType Map.empty
        (Type ''struct'' (Some [Type ''field'' None (Some (Type '':int'' None None)),
                                Type ''field'' None None]) None)
        (Some ''S'')) = Inl TypeError"
proof -
  have t: "''struct'' = '':struct'' \<or> ''struct'' = ''struct''" by simp
  have d: "\<exists>f\<in>set [Type ''field'' None (Some (Type '':int'' None None)),
      Type ''field'' None None]. type f = None" by simp
  have a: "map (mapField Map.empty)
      [Type ''field'' None (Some (Type '':int'' None None)),
       Type ''field'' None (Some (Type '':char'' None None))] = map (\<lambda>n. Inr (Some n)) [I32, U8]"
    by (simp add: mapField_def tagMapping_def tagMapping_own_def)
  have b: "map (mapField Map.empty)
      [Type ''field'' None (Some (Type '':int'' None None)),
       Type ''field'' None (Some (Type ''nope'' None None))] = map Inr [Some I32, None]
      \<and> None \<in> set [Some I32, None]"
    by (simp add: mapField_def tagMapping_def tagMapping_own_def Object_prototype_def)
  have c: "snd (denoFFIType Map.empty
        (Type ''struct'' (Some [Type ''field'' None (Some (Type '':int'' None None)),
                                Type ''field'' None (Some (Type '':char'' None None))]) None)
        (Some ''S'')) = Inr (Some (Struct [I32, U8]))"
    using struct_all_or_nothing[OF t, of Map.empty None "Some ''S''" _ "[I32, U8]"] a by blast
  from struct_all_or_nothing[OF t, of Map.empty None "Some ''S''" _ "[I32, U8]"] a
    struct_all_or_nothing[OF t, of Map.empty None "Some ''S''" _ _ "[Some I32, None]"] b
    struct_all_or_nothing[OF t, of Map.empty None "Some ''S''"
      "[Type ''field'' None (Some (Type '':int'' None None)),
        Type ''field'' None (Some (Type '':char'' None None))]" _ _ "Struct [I32, U8]"] c
    struct_all_or_nothing[OF t, of Map.empty None "Some ''S''"
      "[Type ''field'' None (Some (Type '':int'' None None)), Type ''field'' None None]"] d
  show ?thesis by blast
qed

text \<open>
  Claim C1 as stated fails: the first field below fails to map, yet the mapping of the
  struct does not return unmapped; it raises, because the second field has no \<open>type\<close>.
\<close>

theorem struct_field_without_type_counterexample:
  "mapField Map.empty (Type ''field'' None (Some (Type ''nope'' None None))) = Inr None
   \<and> denoFFIType Map.empty
        (Type ''struct'' (Some [Type ''field'' None (Some (Type ''nope'' None None)),
                                Type ''field'' None None]) None) None = ([], Inl TypeError)"
  by (simp add: mapField_def tagMapping_def tagMapping_own_def Object_prototype_def)

text \<open>
  Claim C2, as amended. When a typedef \<open>x\<close> is processed in a state \<open>s\<close>: if the Type
  Mapper maps the type of \<open>x\<close> directly (its tag is in the fixed table or already in
  \<open>resolvedTypeDefs\<close>), the name of \<open>x\<close> is registered with that value; if it gives
  \<open>null\<close>, and exactly one typedef of the list, anywhere in it, is named by the tag of the
  type of \<open>x\<close>, and the type of that typedef maps in \<open>s\<close> to \<open>n\<close>, the name of \<open>x\<close> is
  registered with \<open>n\<close>. And for the input of the scenario the table ends with
  \<open>"__uint32_t"\<close> bound to \<open>u32\<close>.
\<close>

theorem typedef_reference_resolved:
  "(snd (denoFFIType (resolvedTypeDefs s) xtype (Some xname)) = Inr (Some r) \<longrightarrow>
      (\<exists>s'. step symbols (Typedef xname xtype) s = (s', None)
         \<and> resolvedTypeDefs s' = (resolvedTypeDefs s)(xname \<mapsto> r)
         \<and> generatedTypeDefs s' = generatedTypeDefs s + 1))
   \<and> (snd (denoFFIType (resolvedTypeDefs s) xtype (Some xname)) = Inr None
       \<and> filter (isTypedefNamed (tag xtype)) symbols = [Typedef (tag xtype) ytype]
       \<and> snd (denoFFIType (resolvedTypeDefs s) ytype h) = Inr (Some n) \<longrightarrow>
      (\<exists>s'. step symbols (Typedef xname xtype) s = (s', None)
         \<and> resolvedTypeDefs s' = (resolvedTypeDefs s)(xname \<mapsto> n)
         \<and> generatedTypeDefs s' = generatedTypeDefs s + 1))
   \<and> resolvedTypeDefs (fst (main [Typedef ''__uint32_t'' (Type '':unsigned-int'' None None)]))
       = [''__uint32_t'' \<mapsto> U32]"
proof -
  have "snd (denoFFIType (resolvedTypeDefs s) xtype (Some xname)) = Inr (Some r) \<longrightarrow>
      (\<exists>s'. step symbols (Typedef xname xtype) s = (s', None)
         \<and> resolvedTypeDefs s' = (resolvedTypeDefs s)(xname \<mapsto> r)
         \<and> generatedTypeDefs s' = generatedTypeDefs s + 1)"
    using typedef_direct[of s xtype xname r symbols] by auto
  moreover have "snd (denoFFIType (resolvedTypeDefs s) xtype (Some xname)) = Inr None
       \<and> filter (isTypedefNamed (tag xtype)) symbols = [Typedef (tag xtype) ytype]
       \<and> snd (denoFFIType (resolvedTypeDefs s) ytype h) = Inr (Some n) \<longrightarrow>
      (\<exists>s'. step symbols (Typedef xname xtype) s = (s', None)
         \<and> resolvedTypeDefs s' = (resolvedTypeDefs s)(xname \<mapsto> n)
         \<and> generatedTypeDefs s' = generatedTypeDefs s + 1)"
    using typedef_one_hop[of s xtype xname symbols ytype h n] by auto
  moreover have "resolvedTypeDefs (fst (main [Typedef ''__uint32_t'' (Type '':unsigned-int'' None None)]))
       = [''__uint32_t'' \<mapsto> U32]"
    by (simp add: main_def initial_def typedefCase_def console_error_def
        tagMapping_def tagMapping_own_def)
  ultimately show ?thesis by blast
qed

theorem typedef_reference_resolved_witness:
  "resolvedTypeDefs (fst (step
       [Typedef ''size_t'' (Type ''__size_t'' None None),
        Typedef ''__size_t'' (Type '':unsigned-long'' None None)]
       (Typedef ''size_t'' (Type ''__size_t'' None None)) initial))
     = [''size_t'' \<mapsto> U64]
   \<and> resolvedTypeDefs (fst (step [] (Typedef ''word'' (Type '':unsigned-short'' None None)) initial))
     = [''word'' \<mapsto> U16]"
proof -
  let ?x = "Typedef ''size_t'' (Type ''__size_t'' None None)"
  let ?y = "Typedef ''__size_t'' (Type '':unsigned-long'' None None)"
  have a: "snd (denoFFIType (resolvedTypeDefs initial) (Type ''__size_t'' None None) (Some ''size_t''))
       = Inr None
     \<and> filter (isTypedefNamed (tag (Type ''__size_t'' None None))) [?x, ?y]
       = [Typedef (tag (Type ''__size_t'' None None)) (Type '':unsigned-long'' None None)]
     \<and> snd (denoFFIType (resolvedTypeDefs initial) (Type '':unsigned-long'' None None) None)
       = Inr (Some U64)"
    by (simp add: initial_def tagMapping_def tagMapping_own_def Object_prototype_def)
  have b: "snd (denoFFIType (resolvedTypeDefs initial) (Type '':unsigned-short'' None None) (Some ''word''))
       = Inr (Some U16)"
    by (simp add: tagMapping_def tagMapping_own_def)
  from typedef_reference_resolved[of initial "Type ''__size_t'' None None" "''size_t''" _ "[?x, ?y]"
      "Type '':unsigned-long'' None None" None U64] a
  have "resolvedTypeDefs (fst (step [?x, ?y] ?x initial)) = [''size_t'' \<mapsto> U64]"
    by (auto simp: initial_def)
  moreover
  from typedef_reference_resolved[of initial "Type '':unsigned-short'' None None" "''word''" U16 "[]"] b
  have "resolvedTypeDefs (fst (step [] (Typedef ''word'' (Type '':unsigned-short'' None None)) initial))
     = [''word'' \<mapsto> U16]"
    by (auto simp: initial_def)
  ultimately show ?thesis by blast
qed

text \<open>
  Claim C2 as stated fails in two ways. First, the fixed table is read before anything
  else: \<open>foo\<close> refers to the typedef \<open>__uint32_t\<close>, whose own type maps to \<open>u64\<close>, but is
  registered with the \<open>u32\<close> of the fixed table. Second, the inner loop has no \<open>break\<close>:
  \<open>A\<close> refers to \<open>B\<close>, the first typedef \<open>B\<close> maps to \<open>i32\<close>, but \<open>A\<close> ends as the \<open>u8\<close>
  of the second typedef \<open>B\<close>.
\<close>

theorem typedef_reference_counterexample:
  "snd (denoFFIType [''__uint32_t'' \<mapsto> U64] (Type '':unsigned-long'' None None) None)
      = Inr (Some U64)
   \<and> resolvedTypeDefs (fst (main
        [Typedef ''__uint32_t'' (Type '':unsigned-long'' None None),
         Typedef ''foo'' (Type ''__uint32_t'' None None)]))
      = [''__uint32_t'' \<mapsto> U64, ''foo'' \<mapsto> U32]
   \<and> snd (denoFFIType Map.empty (Type '':int'' None None) None) = Inr (Some I32)
   \<and> resolvedTypeDefs (fst (step
        [Typedef ''A'' (Type ''B'' None None), Typedef ''B'' (Type '':int'' None None),
         Typedef ''B'' (Type '':char'' None None)]
        (Typedef ''A'' (Type ''B'' None None)) initial))
      = [''A'' \<mapsto> U8]"
  by (simp add: main_def initial_def typedefCase_def console_error_def
      tagMapping_def tagMapping_own_def Object_prototype_def)

text \<open>
  Claim C3, as amended. The struct case is the typedef case for the definition taken as
  its own type. When the Type Mapper maps that type directly, the struct has a field list,
  every field maps, and the name of the struct is registered with the aggregate of the
  field values, in order. When the direct mapping gives \<open>null\<close>, the inner loop looks for
  typedefs named \<open>struct\<close> (the tag of the definition); if there is exactly one and its type
  maps to \<open>n\<close>, the name of the struct is registered with \<open>n\<close>, whether \<open>n\<close> is an
  aggregate or not.
\<close>

theorem struct_definition_registered:
  "step symbols (StructDef xname flds) s = step symbols (Typedef xname (structAsType flds)) s
   \<and> (snd (denoFFIType (resolvedTypeDefs s) (structAsType flds) (Some xname)) = Inr (Some r) \<longrightarrow>
      (\<exists>s' fl ns. flds = Some fl \<and> r = Struct ns
         \<and> map (mapField (resolvedTypeDefs s)) fl = map (\<lambda>n. Inr (Some n)) ns
         \<and> step symbols (StructDef xname flds) s = (s', None)
         \<and> resolvedTypeDefs s' = (resolvedTypeDefs s)(xname \<mapsto> Struct ns)
         \<and> generatedTypeDefs s' = generatedTypeDefs s + 1))
   \<and> (snd (denoFFIType (resolvedTypeDefs s) (structAsType flds) (Some xname)) = Inr None
       \<and> filter (isTypedefNamed ''struct'') symbols = [Typedef ''struct'' ytype]
       \<and> snd (denoFFIType (resolvedTypeDefs s) ytype h) = Inr (Some n) \<longrightarrow>
      (\<exists>s'. step symbols (StructDef xname flds) s = (s', None)
         \<and> resolvedTypeDefs s' = (resolvedTypeDefs s)(xname \<mapsto> n)
         \<and> generatedTypeDefs s' = generatedTypeDefs s + 1))"
proof -
  have t: "''struct'' = '':struct'' \<or> ''struct'' = ''struct''" by simp
  have "snd (denoFFIType (resolvedTypeDefs s) (structAsType flds) (Some xname)) = Inr (Some r) \<longrightarrow>
      (\<exists>s' fl ns. flds = Some fl \<and> r = Struct ns
         \<and> map (mapField (resolvedTypeDefs s)) fl = map (\<lambda>n. Inr (Some n)) ns
         \<and> step symbols (StructDef xname flds) s = (s', None)
         \<and> resolvedTypeDefs s' = (resolvedTypeDefs s)(xname \<mapsto> Struct ns)
         \<and> generatedTypeDefs s' = generatedTypeDefs s + 1)"
  proof
    assume d: "snd (denoFFIType (resolvedTypeDefs s) (structAsType flds) (Some xname)) = Inr (Some r)"
    then have "snd (denoFFIType (resolvedTypeDefs s) (Type ''struct'' flds None) (Some xname))
        = Inr (Some r)" by (simp only: structAsType_def)
    from struct_result_complete[OF t this]
    obtain fl ns where f: "flds = Some fl" "r = Struct ns"
      "map (mapField (resolvedTypeDefs s)) fl = map (\<lambda>n. Inr (Some n)) ns" by blast
    from typedef_direct[OF d, of symbols]
    obtain s' where "step symbols (StructDef xname flds) s = (s', None)"
      "resolvedTypeDefs s' = (resolvedTypeDefs s)(xname \<mapsto> r)"
      "generatedTypeDefs s' = generatedTypeDefs s + 1" by auto
    with f show "\<exists>s' fl ns. flds = Some fl \<and> r = Struct ns
         \<and> map (mapField (resolvedTypeDefs s)) fl = map (\<lambda>n. Inr (Some n)) ns
         \<and> step symbols (StructDef xname flds) s = (s', None)
         \<and> resolvedTypeDefs s' = (resolvedTypeDefs s)(xname \<mapsto> Struct ns)
         \<and> generatedTypeDefs s' = generatedTypeDefs s + 1" by blast
  qed
  moreover have "snd (denoFFIType (resolvedTypeDefs s) (structAsType flds) (Some xname)) = Inr None
       \<and> filter (isTypedefNamed ''struct'') symbols = [Typedef ''struct'' ytype]
       \<and> snd (denoFFIType (resolvedTypeDefs s) ytype h) = Inr (Some n) \<longrightarrow>
      (\<exists>s'. step symbols (StructDef xname flds) s = (s', None)
         \<and> resolvedTypeDefs s' = (resolvedTypeDefs s)(xname \<mapsto> n)
         \<and> generatedTypeDefs s' = generatedTypeDefs s + 1)"
  proof
    assume a: "snd (denoFFIType (resolvedTypeDefs s) (structAsType flds) (Some xname)) = Inr None
       \<and> filter (isTypedefNamed ''struct'') symbols = [Typedef ''struct'' ytype]
       \<and> snd (denoFFIType (resolvedTypeDefs s) ytype h) = Inr (Some n)"
    have tg: "tag (structAsType flds) = ''struct''" by (simp add: structAsType_def)
    from a tg have f: "filter (isTypedefNamed (tag (structAsType flds))) symbols
        = [Typedef (tag (structAsType flds)) ytype]" by simp
    from a typedef_one_hop[OF _ f, of s xname h n]
    show "\<exists>s'. step symbols (StructDef xname flds) s = (s', None)
         \<and> resolvedTypeDefs s' = (resolvedTypeDefs s)(xname \<mapsto> n)
         \<and> generatedTypeDefs s' = generatedTypeDefs s + 1" by auto
  qed
  ultimately show ?thesis by simp
qed

theorem struct_definition_registered_witness:
  "resolvedTypeDefs (fst (step []
       (StructDef ''point'' (Some [Type ''field'' None (Some (Type '':int'' None None)),
                                   Type ''field'' None (Some (Type '':long'' None None))])) initial))
     = [''point'' \<mapsto> Struct [I32, I64]]
   \<and> resolvedTypeDefs (fst (step [Typedef ''struct'' (Type '':int'' None None)]
       (StructDef ''S'' None) initial))
     = [''S'' \<mapsto> I32]"
proof -
  let ?fl = "[Type ''field'' None (Some (Type '':int'' None None)),
              Type ''field'' None (Some (Type '':long'' None None))]"
  have a: "snd (denoFFIType (resolvedTypeDefs initial) (structAsType (Some ?fl)) (Some ''point''))
      = Inr (Some (Struct [I32, I64]))"
    by (simp add: structAsType_def tagMapping_def tagMapping_own_def)
  have b: "snd (denoFFIType (resolvedTypeDefs initial) (structAsType None) (Some ''S'')) = Inr None
       \<and> filter (isTypedefNamed ''struct'') [Typedef ''struct'' (Type '':int'' None None)]
         = [Typedef ''struct'' (Type '':int'' None None)]
       \<and> snd (denoFFIType (resolvedTypeDefs initial) (Type '':int'' None None) None)
         = Inr (Some I32)"
    by (simp add: structAsType_def tagMapping_def tagMapping_own_def)
  from struct_definition_registered[of "[]" "''point''" "Some ?fl" initial "Struct [I32, I64]"] a
  have "resolvedTypeDefs (fst (step [] (StructDef ''point'' (Some ?fl)) initial))
     = [''point'' \<mapsto> Struct [I32, I64]]"
    by (auto simp: initial_def)
  moreover
  from struct_definition_registered[of "[Typedef ''struct'' (Type '':int'' None None)]" "''S''"
      None initial _ "Type '':int'' None None" None I32] b
  have "resolvedTypeDefs (fst (step [Typedef ''struct'' (Type '':int'' None None)]
       (StructDef ''S'' None) initial)) = [''S'' \<mapsto> I32]"
    by (auto simp: initial_def)
  ultimately show ?thesis by blast
qed

text \<open>
  Claim C3 as stated fails for the one-hop lookahead: the struct \<open>S\<close> below has no field
  list, so its direct mapping fails; the lookahead finds the typedef named \<open>struct\<close>, and
  \<open>S\<close> is registered with \<open>i32\<close>, which is not an aggregate.
\<close>

theorem struct_lookahead_counterexample:
  "snd (denoFFIType Map.empty (structAsType None) (Some ''S'')) = Inr None
   \<and> main [StructDef ''S'' None, Typedef ''struct'' (Type '':int'' None None)]
      = (initial\<lparr>totalTypeDefs := 2, generatedTypeDefs := 2,
           resolvedTypeDefs := [''S'' \<mapsto> I32, ''struct'' \<mapsto> I32]\<rparr>, None)"
  by (simp add: main_def initial_def typedefCase_def console_error_def structAsType_def
      tagMapping_def tagMapping_own_def Object_prototype_def)

text \<open>
  Claim C4. A function definition with \<open>inline\<close> or \<open>variadic\<close> set is skipped whatever its
  parameters and return type are: the step only counts it in \<open>total\<close> and writes the
  reason, so no entry is added to \<open>symbolSource\<close>, \<open>generated\<close> is not incremented and
  nothing is raised. Over a whole run: if every function definition of a name has one of
  the flags set, \<open>symbolSource\<close> has no entry of that name at the end.
\<close>

theorem inline_or_variadic_skipped:
  assumes "xinline \<or> xvariadic"
  shows "step symbols (Function xname xloc xvariadic xinline ps ret) s =
      (s\<lparr>total_functions := total_functions s + 1,
         stderr := stderr s @
           [SkipInlineOrVariadic xname (if xinline then ''inline'' else ''variadic'')]\<rparr>, None)
    \<and> symbolSource (fst (step symbols (Function xname xloc xvariadic xinline ps ret) s)) = symbolSource s
    \<and> generated (fst (step symbols (Function xname xloc xvariadic xinline ps ret) s)) = generated s
    \<and> (filter (isPlainFunctionNamed xname) symbols = [] \<longrightarrow>
         symbolSource (fst (main symbols)) xname = None)"
proof -
  have "filter (isPlainFunctionNamed xname) symbols = [] \<longrightarrow>
      symbolSource (fst (main symbols)) xname = None"
    using loop_keeps_symbol[of xname symbols symbols initial]
    by (simp add: main_def) (simp add: initial_def)
  then show ?thesis using assms by (simp add: functionCase_flagged)
qed

theorem inline_or_variadic_skipped_witness:
  "step [] (Function ''printf'' ''stdio.h:332:12'' True False
        [Parameter ''parameter'' ''format'' (Type '':pointer'' None None)] (Type '':int'' None None))
      initial =
     (initial\<lparr>total_functions := 1, stderr := [SkipInlineOrVariadic ''printf'' ''variadic'']\<rparr>, None)
   \<and> symbolSource (fst (main [Function ''printf'' ''stdio.h:332:12'' True False
        [Parameter ''parameter'' ''format'' (Type '':pointer'' None None)] (Type '':int'' None None)]))
       ''printf'' = None"
proof -
  have f: "False \<or> True" by simp
  have e: "filter (isPlainFunctionNamed ''printf'')
      [Function ''printf'' ''stdio.h:332:12'' True False
        [Parameter ''parameter'' ''format'' (Type '':pointer'' None None)] (Type '':int'' None None)]
      = []" by simp
  from inline_or_variadic_skipped[OF f, of "[]" "''printf''" "''stdio.h:332:12''" _ _ initial]
    inline_or_variadic_skipped[OF f, of "[Function ''printf'' ''stdio.h:332:12'' True False
        [Parameter ''parameter'' ''format'' (Type '':pointer'' None None)] (Type '':int'' None None)]"
      "''printf''"] e
  show ?thesis by (simp add: initial_def)
qed

text \<open>
  Claim C5, as amended. Let the loop reach, in a state \<open>s\<close>, a function definition with
  neither flag set. If one of its parameters has a tag other than \<open>"parameter"\<close>, or a
  type that maps to \<open>"void"\<close>, the step raises and the run ends there: only \<open>total\<close> and
  standard error have changed, and no later definition is processed. Conversely, whatever
  the definition, an exception out of a step is either one of these two, raised for such a
  parameter of such a function, or a \<open>TypeError\<close>, and then one of the types that the
  step passes to the Type Mapper reaches a struct field without \<open>type\<close>. In
  particular a definition of unknown tag, a function with a flag set, and a definition
  whose types all have typed fields raise nothing else.
\<close>

theorem malformed_parameter_aborts:
  assumes "\<not> xinline" "\<not> xvariadic"
  shows "(loop symbols pre s0 = (s, None)
          \<and> (\<exists>p\<in>set ps. ptag p \<noteq> ''parameter'' \<or>
                snd (denoFFIType (resolvedTypeDefs s) (ptype p) None) = Inr (Some Void)) \<longrightarrow>
          (\<exists>out e. loop symbols (pre @ Function xname xloc xvariadic xinline ps ret # rest) s0 =
             (s\<lparr>total_functions := total_functions s + 1, stderr := stderr s @ out\<rparr>, Some e)))
    \<and> (step symbols x s = (s', Some e') \<longrightarrow>
          (e' = TypeError \<and> (\<exists>t\<in>set (mappedTypes symbols x). lacksFieldType t)) \<or>
          (\<exists>yname yloc qs yret. x = Function yname yloc False False qs yret \<and>
             (\<exists>p\<in>set qs. (ptag p \<noteq> ''parameter'' \<and> e' = UnexpectedParameterTag (ptag p)) \<or>
                (ptag p = ''parameter''
                 \<and> snd (denoFFIType (resolvedTypeDefs s) (ptype p) None) = Inr (Some Void)
                 \<and> e' = UnexpectedVoidParameter (pname p)))))"
proof -
  have "loop symbols pre s0 = (s, None)
          \<and> (\<exists>p\<in>set ps. ptag p \<noteq> ''parameter'' \<or>
                snd (denoFFIType (resolvedTypeDefs s) (ptype p) None) = Inr (Some Void)) \<longrightarrow>
          (\<exists>out e. loop symbols (pre @ Function xname xloc xvariadic xinline ps ret # rest) s0 =
             (s\<lparr>total_functions := total_functions s + 1, stderr := stderr s @ out\<rparr>, Some e))"
  proof
    assume a: "loop symbols pre s0 = (s, None)
          \<and> (\<exists>p\<in>set ps. ptag p \<noteq> ''parameter'' \<or>
                snd (denoFFIType (resolvedTypeDefs s) (ptype p) None) = Inr (Some Void))"
    then have bad: "\<exists>p\<in>set ps. ptag p \<noteq> ''parameter'' \<or>
        snd (denoFFIType (resolvedTypeDefs s) (ptype p) None) = Inr (Some Void)" by simp
    from functionCase_raises_if[OF assms bad, of xname xloc ret]
    obtain out e where "functionCase xname xloc xvariadic xinline ps ret s =
       (s\<lparr>total_functions := total_functions s + 1, stderr := stderr s @ out\<rparr>, Some e)"
      by blast
    then have "loop symbols (Function xname xloc xvariadic xinline ps ret # rest) s =
       (s\<lparr>total_functions := total_functions s + 1, stderr := stderr s @ out\<rparr>, Some e)"
      by simp
    with a have "loop symbols (pre @ Function xname xloc xvariadic xinline ps ret # rest) s0 =
       (s\<lparr>total_functions := total_functions s + 1, stderr := stderr s @ out\<rparr>, Some e)"
      by (simp only: loop_append) simp
    then show "\<exists>out e. loop symbols (pre @ Function xname xloc xvariadic xinline ps ret # rest) s0 =
       (s\<lparr>total_functions := total_functions s + 1, stderr := stderr s @ out\<rparr>, Some e)"
      by blast
  qed
  moreover have "step symbols x s = (s', Some e') \<longrightarrow>
          (e' = TypeError \<and> (\<exists>t\<in>set (mappedTypes symbols x). lacksFieldType t)) \<or>
          (\<exists>yname yloc qs yret. x = Function yname yloc False False qs yret \<and>
             (\<exists>p\<in>set qs. (ptag p \<noteq> ''parameter'' \<and> e' = UnexpectedParameterTag (ptag p)) \<or>
                (ptag p = ''parameter''
                 \<and> snd (denoFFIType (resolvedTypeDefs s) (ptype p) None) = Inr (Some Void)
                 \<and> e' = UnexpectedVoidParameter (pname p))))"
    using step_raises_why[of symbols x s s' e'] by blast
  ultimately show ?thesis by blast
qed

theorem malformed_parameter_aborts_witness:
  "main [Typedef ''unit'' (Type '':void'' None None),
         Function ''f'' ''a.h:2:1'' False False
           [Parameter ''parameter'' ''x'' (Type ''unit'' None None)] (Type '':int'' None None),
         Function ''g'' ''a.h:3:1'' False False [] (Type '':int'' None None)]
     = (initial\<lparr>resolvedTypeDefs := [''unit'' \<mapsto> Void], totalTypeDefs := 1,
          generatedTypeDefs := 1, total_functions := 1\<rparr>, Some (UnexpectedVoidParameter ''x''))
   \<and> main [Function ''f'' ''a.h:1:1'' False False
           [Parameter ''argument'' ''x'' (Type '':int'' None None)] (Type '':int'' None None),
         Function ''g'' ''a.h:2:1'' False False [] (Type '':int'' None None)]
     = (initial\<lparr>total_functions := 1\<rparr>, Some (UnexpectedParameterTag ''argument''))
   \<and> (\<exists>p\<in>set [Parameter ''argument'' ''x'' (Type '':int'' None None)].
         ptag p \<noteq> ''parameter'' \<and> UnexpectedParameterTag ''argument'' = UnexpectedParameterTag (ptag p))
   \<and> (\<exists>t\<in>set (mappedTypes []
           (Typedef ''T'' (Type ''struct'' (Some [Type ''field'' None None]) None))).
         lacksFieldType t)"
proof -
  let ?u = "Typedef ''unit'' (Type '':void'' None None)"
  let ?td = "Typedef ''T'' (Type ''struct'' (Some [Type ''field'' None None]) None)"
  let ?g = "Function ''g'' ''a.h:3:1'' False False [] (Type '':int'' None None)"
  let ?g' = "Function ''g'' ''a.h:2:1'' False False [] (Type '':int'' None None)"
  let ?pv = "Parameter ''parameter'' ''x'' (Type ''unit'' None None)"
  let ?pt = "Parameter ''argument'' ''x'' (Type '':int'' None None)"
  let ?fv = "Function ''f'' ''a.h:2:1'' False False [?pv] (Type '':int'' None None)"
  let ?ft = "Function ''f'' ''a.h:1:1'' False False [?pt] (Type '':int'' None None)"
  let ?s = "initial\<lparr>resolvedTypeDefs := [''unit'' \<mapsto> Void], totalTypeDefs := 1,
      generatedTypeDefs := 1\<rparr>"
  have n: "\<not> False" by simp
  have v: "loop [?u, ?fv, ?g] [?u] initial = (?s, None)
      \<and> (\<exists>p\<in>set [?pv]. ptag p \<noteq> ''parameter'' \<or>
            snd (denoFFIType (resolvedTypeDefs ?s) (ptype p) None) = Inr (Some Void))"
    by (simp add: initial_def typedefCase_def console_error_def
        tagMapping_def tagMapping_own_def Object_prototype_def)
  have t: "loop [?ft, ?g'] [] initial = (initial, None)
      \<and> (\<exists>p\<in>set [?pt]. ptag p \<noteq> ''parameter'' \<or>
            snd (denoFFIType (resolvedTypeDefs initial) (ptype p) None) = Inr (Some Void))"
    by simp
  have "main [?u, ?fv, ?g] = (?s\<lparr>total_functions := 1\<rparr>, Some (UnexpectedVoidParameter ''x''))"
    using malformed_parameter_aborts[OF n n, of "[?u, ?fv, ?g]" "[?u]" initial ?s "[?pv]"
      "''f''" "''a.h:2:1''" "Type '':int'' None None" "[?g]"] v
    by (simp add: main_def initial_def typedefCase_def functionCase_def denoFFIParameter_def
        console_error_def tagMapping_def tagMapping_own_def Object_prototype_def)
  moreover
  have "main [?ft, ?g'] = (initial\<lparr>total_functions := 1\<rparr>, Some (UnexpectedParameterTag ''argument''))"
    using malformed_parameter_aborts[OF n n, of "[?ft, ?g']" "[]" initial initial "[?pt]"
      "''f''" "''a.h:1:1''" "Type '':int'' None None" "[?g']"] t
    by (simp add: main_def initial_def functionCase_def denoFFIParameter_def
        console_error_def tagMapping_def tagMapping_own_def)
  moreover
  have st: "step [] ?ft initial =
      (initial\<lparr>total_functions := 1\<rparr>, Some (UnexpectedParameterTag ''argument''))"
    by (simp add: initial_def functionCase_def denoFFIParameter_def console_error_def)
  have "\<exists>p\<in>set [?pt].
      ptag p \<noteq> ''parameter'' \<and> UnexpectedParameterTag ''argument'' = UnexpectedParameterTag (ptag p)"
    using malformed_parameter_aborts[OF n n, of "[]" "[]" initial initial "[]" "''f''" "''a.h:1:1''"
      "Type '':int'' None None" "[]" ?ft "initial\<lparr>total_functions := 1\<rparr>"
      "UnexpectedParameterTag ''argument''"] st
    by simp
  moreover
  have sd: "step [] ?td initial = (initial\<lparr>totalTypeDefs := 1\<rparr>, Some TypeError)"
    by (simp add: initial_def typedefCase_def console_error_def)
  have "\<exists>t\<in>set (mappedTypes [] ?td). lacksFieldType t"
    using malformed_parameter_aborts[OF n n, of "[]" "[]" initial initial "[]" "''f''" "''a.h:1:1''"
      "Type '':int'' None None" "[]" ?td "initial\<lparr>totalTypeDefs := 1\<rparr>" TypeError] sd
    by blast
  ultimately show ?thesis by (simp add: initial_def)
qed

text \<open>
  Claim C5 as stated fails in its last part: all parameters of the function below are
  tagged \<open>"parameter"\<close> and none maps to \<open>"void"\<close>, yet the step raises, ending the run.
\<close>

theorem other_exception_counterexample:
  "ptag (Parameter ''parameter'' ''x'' (Type ''struct'' (Some [Type ''field'' None None]) None))
     = ''parameter''
   \<and> snd (denoFFIType Map.empty (Type ''struct'' (Some [Type ''field'' None None]) None) None)
       \<noteq> Inr (Some Void)
   \<and> main [Function ''f'' ''a.h:1:1'' False False
        [Parameter ''parameter'' ''x'' (Type ''struct'' (Some [Type ''field'' None None]) None)]
        (Type '':int'' None None),
        Function ''g'' ''a.h:2:1'' False False [] (Type '':int'' None None)]
      = (initial\<lparr>total_functions := 1\<rparr>, Some TypeError)"
  by (simp add: main_def initial_def functionCase_def denoFFIParameter_def console_error_def)

text \<open>
  Claim C6, as amended. For a function definition with neither flag set, whose parameters
  are all tagged \<open>"parameter"\<close> and whose parameter types are all mapped without an
  exception and not to \<open>"void"\<close>: if a parameter type is unmapped, or the return type is
  mapped to \<open>null\<close>, the step raises nothing, writes the reason last (the unmapped parameter
  or the return type), adds no entry to \<open>symbolSource\<close>, increments \<open>total\<close>, leaves
  \<open>generated\<close> as it is, and so the number reported as skipped, \<open>total - generated\<close>,
  grows by one.
\<close>

theorem unmapped_function_skipped:
  assumes "\<not> xinline" "\<not> xvariadic"
    and "\<forall>p\<in>set ps. ptag p = ''parameter'' \<and>
           (\<exists>r. snd (denoFFIType (resolvedTypeDefs s) (ptype p) None) = Inr r \<and> r \<noteq> Some Void)"
    and "(\<exists>p\<in>set ps. snd (denoFFIType (resolvedTypeDefs s) (ptype p) None) = Inr None)
         \<or> snd (denoFFIType (resolvedTypeDefs s) ret None) = Inr None"
  shows "\<exists>s' out reason.
       step symbols (Function xname xloc xvariadic xinline ps ret) s = (s', None)
     \<and> stderr s' = stderr s @ out @ [reason]
     \<and> (reason = ReturnTypeHasNoMapping xname ret \<or>
        (\<exists>p\<in>set ps. reason = ParameterHasNoMapping xname p
            \<and> snd (denoFFIType (resolvedTypeDefs s) (ptype p) None) = Inr None))
     \<and> symbolSource s' = symbolSource s
     \<and> total_functions s' = total_functions s + 1
     \<and> generated s' = generated s
     \<and> skipped s' = skipped s + 1"
proof -
  let ?f = "\<lambda>p. case snd (denoFFIType (resolvedTypeDefs s) (ptype p) None) of Inr r \<Rightarrow> r"
  from parameters_all_return[OF assms(3)]
  obtain out where m: "mapParameters (resolvedTypeDefs s) ps = (out, Inr (map ?f ps))"
    by (cases "mapParameters (resolvedTypeDefs s) ps") auto
  have f: "\<And>p. p \<in> set ps \<Longrightarrow> snd (denoFFIType (resolvedTypeDefs s) (ptype p) None) = Inr (?f p)"
    using assms(3) by auto
  show ?thesis
  proof (cases "None \<in> set (map ?f ps)")
    case True
    let ?i = "indexOfNull (map ?f ps)"
    from indexOfNull_nth[OF True] have i: "?i < length ps" and n0: "map ?f ps ! ?i = None"
      by simp_all
    from n0 nth_map[OF i, of ?f] have n: "?f (ps ! ?i) = None" by simp
    from i have mem: "ps ! ?i \<in> set ps" by simp
    from f[OF mem] n have un: "snd (denoFFIType (resolvedTypeDefs s) (ptype (ps ! ?i)) None) = Inr None"
      by simp
    let ?s' = "s\<lparr>total_functions := total_functions s + 1,
        stderr := stderr s @ out @ [ParameterHasNoMapping xname (ps ! ?i)]\<rparr>"
    from functionCase_unmapped_parameter[OF assms(1,2) m True]
    have st: "step symbols (Function xname xloc xvariadic xinline ps ret) s = (?s', None)" by simp
    have "stderr ?s' = stderr s @ out @ [ParameterHasNoMapping xname (ps ! ?i)]
        \<and> symbolSource ?s' = symbolSource s \<and> total_functions ?s' = total_functions s + 1
        \<and> generated ?s' = generated s \<and> skipped ?s' = skipped s + 1"
      by (simp add: skipped_def)
    with st mem un show ?thesis by blast
  next
    case False
    have "\<not> (\<exists>p\<in>set ps. snd (denoFFIType (resolvedTypeDefs s) (ptype p) None) = Inr None)"
    proof
      assume "\<exists>p\<in>set ps. snd (denoFFIType (resolvedTypeDefs s) (ptype p) None) = Inr None"
      then obtain p where "p \<in> set ps" and "?f p = None" by auto
      then have "None \<in> set (map ?f ps)" by force
      with False show False by simp
    qed
    with assms(4) obtain out2 where d: "denoFFIType (resolvedTypeDefs s) ret None = (out2, Inr None)"
      by (cases "denoFFIType (resolvedTypeDefs s) ret None") auto
    let ?s' = "s\<lparr>total_functions := total_functions s + 1,
        stderr := stderr s @ out @ out2 @ [ReturnTypeHasNoMapping xname ret]\<rparr>"
    from functionCase_unmapped_return[OF assms(1,2) m False d]
    have st: "step symbols (Function xname xloc xvariadic xinline ps ret) s = (?s', None)" by simp
    have "stderr ?s' = stderr s @ (out @ out2) @ [ReturnTypeHasNoMapping xname ret]
        \<and> symbolSource ?s' = symbolSource s \<and> total_functions ?s' = total_functions s + 1
        \<and> generated ?s' = generated s \<and> skipped ?s' = skipped s + 1"
      by (simp add: skipped_def)
    with st show ?thesis by blast
  qed
qed

theorem unmapped_function_skipped_witness:
  "\<exists>s'. step [] (Function ''f'' ''a.h:1:1'' False False
            [Parameter ''parameter'' ''x'' (Type ''custom'' None None)] (Type '':int'' None None))
          initial = (s', None)
     \<and> symbolSource s' = Map.empty \<and> total_functions s' = 1 \<and> generated s' = 0 \<and> skipped s' = 1
     \<and> stderr s' = [ParameterHasNoMapping ''f'' (Parameter ''parameter'' ''x'' (Type ''custom'' None None))]"
proof -
  let ?p = "Parameter ''parameter'' ''x'' (Type ''custom'' None None)"
  have n: "\<not> False" by simp
  have a: "\<forall>p\<in>set [?p]. ptag p = ''parameter'' \<and>
      (\<exists>r. snd (denoFFIType (resolvedTypeDefs initial) (ptype p) None) = Inr r \<and> r \<noteq> Some Void)"
    by (simp add: initial_def tagMapping_def tagMapping_own_def Object_prototype_def)
  have b: "(\<exists>p\<in>set [?p]. snd (denoFFIType (resolvedTypeDefs initial) (ptype p) None) = Inr None)
      \<or> snd (denoFFIType (resolvedTypeDefs initial) (Type '':int'' None None) None) = Inr None"
    by (simp add: initial_def tagMapping_def tagMapping_own_def Object_prototype_def)
  from unmapped_function_skipped[OF n n a b, of "[]" "''f''" "''a.h:1:1''"]
  show ?thesis
    by (simp add: initial_def functionCase_def denoFFIParameter_def console_error_def
        tagMapping_def tagMapping_own_def Object_prototype_def skipped_def indexOfNull_def)
qed

text \<open>
  Claim C6 as stated fails: the function below has neither flag set, well-tagged
  parameters, no \<open>"void"\<close> parameter and an unmapped first parameter, but it is not skipped:
  mapping the second parameter raises, which ends the run.
\<close>

theorem unmapped_function_raises_counterexample:
  "snd (denoFFIType Map.empty (Type ''custom'' None None) None) = Inr None
   \<and> snd (denoFFIType Map.empty (Type ''struct'' (Some [Type ''field'' None None]) None) None)
       = Inl TypeError
   \<and> step [] (Function ''f'' ''a.h:1:1'' False False
        [Parameter ''parameter'' ''x'' (Type ''custom'' None None),
         Parameter ''parameter'' ''y'' (Type ''struct'' (Some [Type ''field'' None None]) None)]
        (Type '':int'' None None)) initial
      = (initial\<lparr>total_functions := 1\<rparr>, Some TypeError)"
  by (simp add: initial_def functionCase_def denoFFIParameter_def console_error_def
      tagMapping_def tagMapping_own_def Object_prototype_def)

text \<open>
  Claim C7, at an input where the code departs from it. The tag \<open>toString\<close> is not a
  key of the literal and not in \<open>resolvedTypeDefs\<close>, so by the claim it is unmapped. But
  \<open>tagMapping["toString"]\<close> is the function inherited from \<open>Object.prototype\<close>, which
  \<open>??\<close> passes on: the Type Mapper returns it as if it were a mapping, and a function
  with a parameter of that type is generated. (\<open>resolvedTypeDefs\<close> is a \<open>Map\<close>, whose
  \<open>get\<close> has no such keys.) The claim does hold for the tags of the literal, in every state
  (\<open>fixed_table_first\<close>), and for every other tag that is not the name of a member of
  \<open>Object.prototype\<close> (\<open>absent_tag_unmapped\<close>, \<open>resolved_tag_mapped\<close>).
\<close>

theorem inherited_member_is_mapped:
  "map_of tagMapping_own ''toString'' = None
   \<and> denoFFIType Map.empty (Type ''toString'' None None) None
        = ([], Inr (Some (Inherited ''toString'')))
   \<and> main [Function ''f'' ''a.h:1:1'' False False
          [Parameter ''parameter'' ''x'' (Type ''toString'' None None)] (Type '':int'' None None)]
       = (initial\<lparr>total_functions := 1, generated := 1,
            symbolSource := [''f'' \<mapsto> \<lparr>parameters = [Inherited ''toString''], result = I32,
               doc = ''f @ a.h:1:1''\<rparr>]\<rparr>, None)"
  by (simp add: tagMapping_def tagMapping_own_def Object_prototype_def main_def initial_def
      functionCase_def denoFFIParameter_def console_error_def)

text \<open>
  Claim C8, as amended. No step and no run removes a name from \<open>resolvedTypeDefs\<close>; a
  typedef or struct definition changes at most the entry of its own name, a function
  definition or a definition of unknown tag changes none. (An entry is a value of the Type
  Mapper, never \<open>null\<close>: \<open>set\<close> is called after \<open>result === null\<close> has been excluded.) The
  entry of a name can be overwritten with another value, though: see the counterexample.
\<close>

theorem resolved_table_only_grows:
  "dom (resolvedTypeDefs s) \<subseteq> dom (resolvedTypeDefs (fst (step symbols x s)))
   \<and> dom (resolvedTypeDefs s) \<subseteq> dom (resolvedTypeDefs (fst (loop symbols xs s)))
   \<and> resolvedTypeDefs (fst (step symbols (Typedef xname xtype) s)) |` (- {xname})
       = resolvedTypeDefs s |` (- {xname})
   \<and> resolvedTypeDefs (fst (step symbols (StructDef xname flds) s)) |` (- {xname})
       = resolvedTypeDefs s |` (- {xname})
   \<and> resolvedTypeDefs (fst (step symbols (Function xname xloc xvariadic xinline ps ret) s))
       = resolvedTypeDefs s
   \<and> resolvedTypeDefs (fst (step symbols (Unknown t) s)) = resolvedTypeDefs s"
proof -
  have "resolvedTypeDefs (fst (typedefCase symbols xname xtype s)) |` (- {xname})
       = resolvedTypeDefs s |` (- {xname})" for xtype
    using typedefCase_frame[of symbols xname xtype s]
    by (cases "typedefCase symbols xname xtype s") simp
  then show ?thesis
    by (simp add: step_table_grows loop_table_grows functionCase_frame console_error_def)
qed

text \<open>
  Claim C8 as stated fails in its last part. In C, \<open>struct foo { int a; }; typedef int foo;\<close>
  declares two different things named \<open>foo\<close>; the name is first bound to the aggregate and
  then re-bound to \<open>i32\<close>.
\<close>

theorem rebinding_counterexample:
  "resolvedTypeDefs (fst (loop
        [StructDef ''foo'' (Some [Type ''field'' None (Some (Type '':int'' None None))]),
         Typedef ''foo'' (Type '':int'' None None)]
        [StructDef ''foo'' (Some [Type ''field'' None (Some (Type '':int'' None None))])]
        initial)) ''foo'' = Some (Struct [I32])
   \<and> resolvedTypeDefs (fst (main
        [StructDef ''foo'' (Some [Type ''field'' None (Some (Type '':int'' None None))]),
         Typedef ''foo'' (Type '':int'' None None)])) ''foo'' = Some I32"
  by (simp add: main_def initial_def typedefCase_def console_error_def structAsType_def
      tagMapping_def tagMapping_own_def Object_prototype_def)

text \<open>
  Claim C9. Let a function definition of some name map fully (neither flag set, all
  parameters and the return type mapped) in a state \<open>s\<close>, let the loop go on over further
  definitions \<open>mid\<close> without an exception to a state \<open>t\<close>, and let a second function
  definition of the same name map fully in \<open>t\<close>. Then after the second one the entry of
  that name in \<open>symbolSource\<close> holds the parameters, result and documentation string of
  the second definition; the set of names in \<open>symbolSource\<close> is the same as in \<open>t\<close>
  (the name was there already, so no entry is added), while \<open>generated\<close> was incremented
  for each of the two definitions.
\<close>

theorem later_definition_overwrites:
  assumes "snd (mapParameters (resolvedTypeDefs s) ps1) = Inr (map Some pts1)"
    and "snd (denoFFIType (resolvedTypeDefs s) ret1 None) = Inr (Some r1)"
    and "loop symbols (Function xname loc1 False False ps1 ret1 # mid) s = (t, None)"
    and "snd (mapParameters (resolvedTypeDefs t) ps2) = Inr (map Some pts2)"
    and "snd (denoFFIType (resolvedTypeDefs t) ret2 None) = Inr (Some r2)"
  shows "\<exists>s1 u.
       step symbols (Function xname loc1 False False ps1 ret1) s = (s1, None)
     \<and> symbolSource s1 xname = Some \<lparr>parameters = pts1, result = r1, doc = xname @ '' @ '' @ loc1\<rparr>
     \<and> generated s1 = generated s + 1
     \<and> generated s1 \<le> generated t
     \<and> loop symbols (Function xname loc1 False False ps1 ret1 # mid @
          [Function xname loc2 False False ps2 ret2]) s = (u, None)
     \<and> symbolSource u = (symbolSource t)(xname \<mapsto>
          \<lparr>parameters = pts2, result = r2, doc = xname @ '' @ '' @ loc2\<rparr>)
     \<and> dom (symbolSource u) = dom (symbolSource t)
     \<and> generated u = generated t + 1"
proof -
  from function_generated[OF assms(1,2), of symbols xname loc1]
  obtain s1 where s1: "step symbols (Function xname loc1 False False ps1 ret1) s = (s1, None)"
    and e1: "symbolSource s1 = (symbolSource s)(xname \<mapsto>
          \<lparr>parameters = pts1, result = r1, doc = xname @ '' @ '' @ loc1\<rparr>)"
    and g1: "generated s1 = generated s + 1" by blast
  from assms(3) s1 have mid: "loop symbols mid s1 = (t, None)" by simp
  from loop_symbols_grow[of s1 symbols mid] mid
  have grow: "dom (symbolSource s1) \<subseteq> dom (symbolSource t)" "generated s1 \<le> generated t"
    by simp_all
  from e1 grow(1) have there: "xname \<in> dom (symbolSource t)" by auto
  from function_generated[OF assms(4,5), of symbols xname loc2]
  obtain u where u: "step symbols (Function xname loc2 False False ps2 ret2) t = (u, None)"
    and e2: "symbolSource u = (symbolSource t)(xname \<mapsto>
          \<lparr>parameters = pts2, result = r2, doc = xname @ '' @ '' @ loc2\<rparr>)"
    and g2: "generated u = generated t + 1" by blast
  have "loop symbols ((Function xname loc1 False False ps1 ret1 # mid) @
          [Function xname loc2 False False ps2 ret2]) s = (u, None)"
    using assms(3) u by (simp only: loop_append) simp
  then have l: "loop symbols (Function xname loc1 False False ps1 ret1 # mid @
          [Function xname loc2 False False ps2 ret2]) s = (u, None)" by simp
  from e2 there have d: "dom (symbolSource u) = dom (symbolSource t)" by auto
  from e1 have "symbolSource s1 xname =
      Some \<lparr>parameters = pts1, result = r1, doc = xname @ '' @ '' @ loc1\<rparr>" by simp
  with s1 g1 grow(2) l e2 d g2 show ?thesis by blast
qed

theorem later_definition_overwrites_witness:
  "main [Function ''f'' ''a.h:1:1'' False False
           [Parameter ''parameter'' ''x'' (Type '':int'' None None)] (Type '':void'' None None),
         Function ''f'' ''b.h:7:1'' False False
           [Parameter ''parameter'' ''p'' (Type '':pointer'' None None),
            Parameter ''parameter'' ''c'' (Type '':char'' None None)] (Type '':long'' None None)]
     = (initial\<lparr>total_functions := 2, generated := 2,
          symbolSource := [''f'' \<mapsto>
            \<lparr>parameters = [Pointer, U8], result = I64, doc = ''f @ b.h:7:1''\<rparr>]\<rparr>, None)
   \<and> card (dom (symbolSource (fst (main [Function ''f'' ''a.h:1:1'' False False
           [Parameter ''parameter'' ''x'' (Type '':int'' None None)] (Type '':void'' None None),
         Function ''f'' ''b.h:7:1'' False False
           [Parameter ''parameter'' ''p'' (Type '':pointer'' None None),
            Parameter ''parameter'' ''c'' (Type '':char'' None None)] (Type '':long'' None None)]))))
       = 1"
proof -
  let ?f1 = "Function ''f'' ''a.h:1:1'' False False
           [Parameter ''parameter'' ''x'' (Type '':int'' None None)] (Type '':void'' None None)"
  let ?f2 = "Function ''f'' ''b.h:7:1'' False False
           [Parameter ''parameter'' ''p'' (Type '':pointer'' None None),
            Parameter ''parameter'' ''c'' (Type '':char'' None None)] (Type '':long'' None None)"
  let ?t = "initial\<lparr>total_functions := 1, generated := 1,
          symbolSource := [''f'' \<mapsto>
            \<lparr>parameters = [I32], result = Void, doc = ''f @ a.h:1:1''\<rparr>]\<rparr>"
  have a1: "snd (mapParameters (resolvedTypeDefs initial)
      [Parameter ''parameter'' ''x'' (Type '':int'' None None)]) = Inr (map Some [I32])"
    by (simp add: denoFFIParameter_def tagMapping_def tagMapping_own_def)
  have a2: "snd (denoFFIType (resolvedTypeDefs initial) (Type '':void'' None None) None)
      = Inr (Some Void)"
    by (simp add: tagMapping_def tagMapping_own_def)
  have a3: "loop [?f1, ?f2] (?f1 # []) initial = (?t, None)"
    by (simp add: initial_def functionCase_def denoFFIParameter_def console_error_def
        tagMapping_def tagMapping_own_def)
  have a4: "snd (mapParameters (resolvedTypeDefs ?t)
      [Parameter ''parameter'' ''p'' (Type '':pointer'' None None),
       Parameter ''parameter'' ''c'' (Type '':char'' None None)]) = Inr (map Some [Pointer, U8])"
    by (simp add: denoFFIParameter_def tagMapping_def tagMapping_own_def)
  have a5: "snd (denoFFIType (resolvedTypeDefs ?t) (Type '':long'' None None) None)
      = Inr (Some I64)"
    by (simp add: tagMapping_def tagMapping_own_def)
  have m: "main [?f1, ?f2] = (initial\<lparr>total_functions := 2, generated := 2,
          symbolSource := [''f'' \<mapsto>
            \<lparr>parameters = [Pointer, U8], result = I64, doc = ''f @ b.h:7:1''\<rparr>]\<rparr>, None)"
    by (simp add: main_def initial_def functionCase_def denoFFIParameter_def console_error_def
        tagMapping_def tagMapping_own_def)
  from later_definition_overwrites[OF a1 a2 a3 a4 a5, of "''b.h:7:1''"] m
  show ?thesis by simp
qed

text \<open>
  Claim C10. The tag \<open>":char"\<close> is mapped to \<open>u8\<close>, as \<open>":unsigned-char"\<close> is and
  not to \<open>i8\<close>, in every state of \<open>resolvedTypeDefs\<close>: as a type of its own, as the
  type of a parameter and as the type of a struct field.
\<close>

theorem plain_char_is_u8:
  "tagMapping '':char'' = Some U8
   \<and> tagMapping '':char'' = tagMapping '':unsigned-char''
   \<and> tagMapping '':char'' \<noteq> Some I8
   \<and> denoFFIType rtd (Type '':char'' fs ty) hint = ([], Inr (Some U8))
   \<and> denoFFIParameter rtd (Parameter ''parameter'' n (Type '':char'' fs ty)) = ([], Inr (Some U8))
   \<and> denoFFIType rtd (Type ''struct'' (Some [Type ftag ffs (Some (Type '':char'' fs ty))]) None) hint
        = ([], Inr (Some (Struct [U8])))"
  by (simp add: tagMapping_def tagMapping_own_def denoFFIParameter_def)

end
